theory Spec2Isabelle
  imports Main "HOL-Library.Code_Target_Nat"
begin

section \<open>JavaScript strings\<close>

text \<open>
  A JavaScript string is a sequence of UTF-16 code units. The articles and the
  model's answers are Russian text, so a string is modelled as the list of its code
  units (natural numbers below 65536), not as a list of 8-bit characters.
  \<open>str\<close> turns an ASCII literal into its code units.
\<close>

type_synonym jsstring = "nat list"

definition str :: "string \<Rightarrow> jsstring" where
  "str s = map of_char s"

text \<open>
  \<open>String.prototype.toLowerCase\<close>, code unit by code unit, on the Basic Latin, Latin-1
  and Cyrillic blocks. Outside these blocks a code unit is left as it is; no code unit
  outside them lower-cases to a letter of the patterns the program searches for.
\<close>

definition lower_unit :: "nat \<Rightarrow> nat" where
  "lower_unit c =
     (if 65 \<le> c \<and> c \<le> 90 then c + 32
      else if 192 \<le> c \<and> c \<le> 222 \<and> c \<noteq> 215 then c + 32
      else if 1040 \<le> c \<and> c \<le> 1071 then c + 32
      else if 1024 \<le> c \<and> c \<le> 1039 then c + 80
      else c)"

definition toLowerCase :: "jsstring \<Rightarrow> jsstring" where
  "toLowerCase s = map lower_unit s"

text \<open>\<open>startsWith\<close>: \<open>starts_with s pat\<close> holds when \<open>pat\<close> is a prefix of \<open>s\<close>.\<close>

fun starts_with :: "jsstring \<Rightarrow> jsstring \<Rightarrow> bool" where
  "starts_with s [] = True"
| "starts_with [] (p # ps) = False"
| "starts_with (c # cs) (p # ps) = (c = p \<and> starts_with cs ps)"

text \<open>\<open>String.prototype.includes\<close>: \<open>pat\<close> occurs in \<open>s\<close> at some position.\<close>

fun js_includes :: "jsstring \<Rightarrow> jsstring \<Rightarrow> bool" where
  "js_includes [] pat = (pat = [])"
| "js_includes (c # cs) pat = (starts_with (c # cs) pat \<or> js_includes cs pat)"

section \<open>llm.ts: the decision normalizer\<close>

datatype position = Top | Bottom

text \<open>
  Every \<open>throw\<close> of the program is a value of \<open>error\<close>; the constructor names the
  place that throws and carries what the message is built from.
\<close>

datatype error =
    InvalidPlacement jsstring   \<comment> \<open>llm.ts, normalizePlacementStrategy: the raw strategy\<close>
  | LLMParseError jsstring      \<comment> \<open>llm.ts, pickWidgetByContent: the catch-all rethrow, with the text\<close>
  | WidgetNotFound jsstring     \<comment> \<open>placement.ts, getWidgetHtmlById: the id\<close>
  | TransportError              \<comment> \<open>wordpress.ts / the model client: a failed request\<close>
  | UsageError                  \<comment> \<open>runOne.ts: no post id on the command line, exit code 1\<close>

text \<open>
  The Cyrillic stems the normalizer looks for, as code units:
  U+043D U+0430 U+0447 (the stem of the word for "beginning") and
  U+043A U+043E U+043D (the stem of the word for "end").
\<close>

definition stem_nach :: jsstring where
  "stem_nach = [1085, 1072, 1095]"

definition stem_kon :: jsstring where
  "stem_kon = [1082, 1086, 1085]"

definition normalizePlacementStrategy :: "jsstring \<Rightarrow> error + position" where
  "normalizePlacementStrategy raw =
     (let val = toLowerCase raw in
      if js_includes val (str ''top'') \<or> js_includes val stem_nach then Inr Top
      else if js_includes val (str ''bottom'') \<or> js_includes val (str ''end'') \<or> js_includes val stem_kon
        then Inr Bottom
      else Inl (InvalidPlacement raw))"

text \<open>The words of the specification's examples, as code units.\<close>

definition word_nachalo :: jsstring where
  "word_nachalo = [1085, 1072, 1095, 1072, 1083, 1086]"

definition word_konets :: jsstring where
  "word_konets = [1082, 1086, 1085, 1077, 1094]"

section \<open>html.ts: the regular expressions\<close>

abbreviation ch :: "char \<Rightarrow> nat" where
  "ch c \<equiv> of_char c"

text \<open>The class \<open>\s\<close> of a JavaScript regular expression, on code units.\<close>

definition is_space :: "nat \<Rightarrow> bool" where
  "is_space c =
     (c = 9 \<or> c = 10 \<or> c = 11 \<or> c = 12 \<or> c = 13 \<or> c = 32 \<or> c = 160 \<or> c = 5760
      \<or> (8192 \<le> c \<and> c \<le> 8202) \<or> c = 8232 \<or> c = 8233 \<or> c = 8239 \<or> c = 8287
      \<or> c = 12288 \<or> c = 65279)"

text \<open>
  Under the flag \<open>i\<close> a literal ASCII character of a pattern matches a code unit when
  both have the same upper case; a code unit of 128 or more never matches an ASCII one.
\<close>

definition ascii_upper :: "nat \<Rightarrow> nat" where
  "ascii_upper c = (if 97 \<le> c \<and> c \<le> 122 then c - 32 else c)"

fun ci_starts_with :: "jsstring \<Rightarrow> jsstring \<Rightarrow> bool" where
  "ci_starts_with s [] = True"
| "ci_starts_with [] (p # ps) = False"
| "ci_starts_with (c # cs) (p # ps) = (ascii_upper c = ascii_upper p \<and> ci_starts_with cs ps)"

text \<open>
  A pattern is modelled by the function that, at a position (the rest of the string from
  there), gives the length of the match that starts there, if one does.

  \<^verbatim>\<open>/\[contact-form-7[^\]]*\]/gi\<close>: the opening, then everything up to the next \<open>]\<close>.
\<close>

definition match_shortcode :: "jsstring \<Rightarrow> nat option" where
  "match_shortcode s =
     (if ci_starts_with s (str ''[contact-form-7'') then
        (let r = drop 15 s; n = length (takeWhile (\<lambda>c. c \<noteq> ch CHR '']'') r) in
         if n < length r then Some (15 + n + 1) else None)
      else None)"

text \<open>\<^verbatim>\<open>/<!--\s*\/wp:post-content\s*-->/gi\<close>\<close>

definition match_wp_marker :: "jsstring \<Rightarrow> nat option" where
  "match_wp_marker s =
     (if ci_starts_with s (str ''<!--'') then
        (let r = drop 4 s; a = length (takeWhile is_space r); r2 = drop a r in
         if ci_starts_with r2 (str ''/wp:post-content'') then
           (let r3 = drop 16 r2; b = length (takeWhile is_space r3); r4 = drop b r3 in
            if ci_starts_with r4 (str ''-->'') then Some (4 + a + 16 + b + 3) else None)
         else None)
      else None)"

text \<open>\<^verbatim>\<open>/shkolamasterov\.online\/pl\/lite\/widget/gi\<close>\<close>

definition widget_signature :: jsstring where
  "widget_signature = str ''shkolamasterov.online/pl/lite/widget''"

definition match_widget :: "jsstring \<Rightarrow> nat option" where
  "match_widget s = (if ci_starts_with s widget_signature then Some 36 else None)"

text \<open>
  \<open>s.replace(re, '')\<close> with the flag \<open>g\<close>: one pass from left to right; where the pattern
  matches, the match is left out and the scan goes on behind it, otherwise the code unit
  is kept. The second argument counts the code units of a match still to be left out.
\<close>

fun replace_all :: "(jsstring \<Rightarrow> nat option) \<Rightarrow> nat \<Rightarrow> jsstring \<Rightarrow> jsstring" where
  "replace_all m k [] = []"
| "replace_all m (Suc k) (c # cs) = replace_all m k cs"
| "replace_all m 0 (c # cs) =
     (case m (c # cs) of
        None \<Rightarrow> c # replace_all m 0 cs
      | Some 0 \<Rightarrow> c # replace_all m 0 cs
      | Some (Suc n) \<Rightarrow> replace_all m n cs)"

text \<open>\<open>(s.match(re) || []).length\<close> with the flag \<open>g\<close>: the matches of one pass.\<close>

fun count_matches :: "(jsstring \<Rightarrow> nat option) \<Rightarrow> nat \<Rightarrow> jsstring \<Rightarrow> nat" where
  "count_matches m k [] = 0"
| "count_matches m (Suc k) (c # cs) = count_matches m k cs"
| "count_matches m 0 (c # cs) =
     (case m (c # cs) of
        None \<Rightarrow> count_matches m 0 cs
      | Some 0 \<Rightarrow> count_matches m 0 cs
      | Some (Suc n) \<Rightarrow> Suc (count_matches m n cs))"

definition countWidgets :: "jsstring \<Rightarrow> nat" where
  "countWidgets html = count_matches match_widget 0 html"

definition cleanWpPostContentMarkers :: "jsstring \<Rightarrow> jsstring" where
  "cleanWpPostContentMarkers html = replace_all match_wp_marker 0 html"



section \<open>The cheerio library, as html.ts uses it\<close>

text \<open>
  \<open>cheerio\<close> is a library outside the repository. The model covers what html.ts calls:
  \<open>load\<close>, the selectors \<open>article\<close>, \<open>body\<close>, \<open>article p\<close>, \<open>body p\<close> and \<open>.wpcf7\<close>,
  \<open>first\<close>, \<open>after\<close>, \<open>prepend\<close>, \<open>append\<close>, \<open>remove\<close>, \<open>root\<close> and \<open>html\<close>.

  The parser is the one of the library's \<open>htmlparser2\<close> mode: the tree holds the nodes
  the text has and no \<open>html\<close>, \<open>head\<close> or \<open>body\<close> element of its own making, which is
  what the root branches of \<open>insertWidgetHtml\<close> are written for. It covers text,
  comments, declarations, start tags with attributes, end tags and void elements, on
  well-nested markup: an end tag closes the nearest open element of its name (and the
  elements open inside it), an end tag with no open element is dropped, a tag that the
  text leaves unfinished is dropped, and elements still open at the end are closed
  there. With \<open>decodeEntities: false\<close> text and attribute values are kept and written
  back as they stand.
\<close>

datatype node =
    Text jsstring
  | Comment jsstring
  | Directive jsstring
  | Element jsstring "(jsstring \<times> jsstring) list" "node list"

datatype token =
    TText jsstring
  | TComment jsstring
  | TDirective jsstring
  | TOpen jsstring "(jsstring \<times> jsstring) list"
  | TClose jsstring

definition is_ws :: "nat \<Rightarrow> bool" where
  "is_ws c = (c = 32 \<or> c = 10 \<or> c = 9 \<or> c = 12 \<or> c = 13)"

definition is_alpha :: "nat \<Rightarrow> bool" where
  "is_alpha c = ((65 \<le> c \<and> c \<le> 90) \<or> (97 \<le> c \<and> c \<le> 122))"

definition end_of_tag_section :: "nat \<Rightarrow> bool" where
  "end_of_tag_section c = (c = ch CHR ''/'' \<or> c = ch CHR ''>'' \<or> is_ws c)"

text \<open>The position of the first occurrence of \<open>pat\<close> in \<open>s\<close>.\<close>

fun index_of :: "jsstring \<Rightarrow> jsstring \<Rightarrow> nat option" where
  "index_of [] pat = (if pat = [] then Some 0 else None)"
| "index_of (c # cs) pat =
     (if starts_with (c # cs) pat then Some 0 else map_option Suc (index_of cs pat))"

text \<open>
  The attributes of a start tag, read by the states of the tokenizer. The result is the
  attributes (names in lower case, the first of two attributes of one name kept) and the
  number of code units read, the closing \<open>>\<close> included; \<open>None\<close> when the text ends
  inside the tag.
\<close>

datatype tstate =
    BeforeAttr
  | InName jsstring
  | AfterName jsstring
  | BeforeValue jsstring
  | InDq jsstring jsstring
  | InSq jsstring jsstring
  | InNq jsstring jsstring

definition add_attr :: "jsstring \<Rightarrow> jsstring \<Rightarrow> (jsstring \<times> jsstring) list \<Rightarrow> (jsstring \<times> jsstring) list" where
  "add_attr n v acc =
     (if toLowerCase n \<in> set (map fst acc) then acc else acc @ [(toLowerCase n, v)])"

fun tag_attrs :: "tstate \<Rightarrow> (jsstring \<times> jsstring) list \<Rightarrow> nat \<Rightarrow> jsstring
    \<Rightarrow> ((jsstring \<times> jsstring) list \<times> nat) option" where
  "tag_attrs st acc k [] = None"
| "tag_attrs st acc k (c # cs) =
     (case st of
        BeforeAttr \<Rightarrow>
          if c = ch CHR ''>'' then Some (acc, Suc k)
          else if is_ws c \<or> c = ch CHR ''/'' then tag_attrs BeforeAttr acc (Suc k) cs
          else tag_attrs (InName [c]) acc (Suc k) cs
      | InName n \<Rightarrow>
          if c = ch CHR ''='' then tag_attrs (BeforeValue n) acc (Suc k) cs
          else if c = ch CHR ''>'' then Some (add_attr n [] acc, Suc k)
          else if is_ws c \<or> c = ch CHR ''/'' then tag_attrs (AfterName n) acc (Suc k) cs
          else tag_attrs (InName (n @ [c])) acc (Suc k) cs
      | AfterName n \<Rightarrow>
          if c = ch CHR ''='' then tag_attrs (BeforeValue n) acc (Suc k) cs
          else if c = ch CHR ''>'' then Some (add_attr n [] acc, Suc k)
          else if is_ws c \<or> c = ch CHR ''/'' then tag_attrs (AfterName n) acc (Suc k) cs
          else tag_attrs (InName [c]) (add_attr n [] acc) (Suc k) cs
      | BeforeValue n \<Rightarrow>
          if c = ch CHR 0x22 then tag_attrs (InDq n []) acc (Suc k) cs
          else if c = ch CHR 0x27 then tag_attrs (InSq n []) acc (Suc k) cs
          else if is_ws c then tag_attrs (BeforeValue n) acc (Suc k) cs
          else if c = ch CHR ''>'' then Some (add_attr n [] acc, Suc k)
          else tag_attrs (InNq n [c]) acc (Suc k) cs
      | InDq n v \<Rightarrow>
          if c = ch CHR 0x22 then tag_attrs BeforeAttr (add_attr n v acc) (Suc k) cs
          else tag_attrs (InDq n (v @ [c])) acc (Suc k) cs
      | InSq n v \<Rightarrow>
          if c = ch CHR 0x27 then tag_attrs BeforeAttr (add_attr n v acc) (Suc k) cs
          else tag_attrs (InSq n (v @ [c])) acc (Suc k) cs
      | InNq n v \<Rightarrow>
          if is_ws c then tag_attrs BeforeAttr (add_attr n v acc) (Suc k) cs
          else if c = ch CHR ''>'' then Some (add_attr n v acc, Suc k)
          else tag_attrs (InNq n (v @ [c])) acc (Suc k) cs)"

text \<open>
  The tokenizer. The argument of every recursive call is the text behind the token just
  read, so it is shorter than the text the call was given.
\<close>

fun tokenize :: "jsstring \<Rightarrow> token list" where
  "tokenize [] = []"
| "tokenize (c # cs) =
     (if c = ch CHR ''<'' \<and> starts_with cs (str ''!--'') then
        (let body = drop 3 cs in
         case index_of body (str ''-->'') of
           None \<Rightarrow> [TComment body]
         | Some i \<Rightarrow> TComment (take i body) # tokenize (drop (i + 3) body))
      else if c = ch CHR ''<'' \<and> starts_with cs (str ''/'') \<and> (case drop 1 cs of [] \<Rightarrow> False | d # _ \<Rightarrow> is_alpha d) then
        (let r = drop 1 cs;
             name = takeWhile (\<lambda>x. \<not> end_of_tag_section x) r;
             n = length (takeWhile (\<lambda>x. x \<noteq> ch CHR ''>'') r) in
         if n < length r then TClose (toLowerCase name) # tokenize (drop (Suc n) r) else [])
      else if c = ch CHR ''<'' \<and> (case cs of [] \<Rightarrow> False | d # _ \<Rightarrow> is_alpha d) then
        (let name = takeWhile (\<lambda>x. \<not> end_of_tag_section x) cs;
             r = drop (length name) cs in
         case tag_attrs BeforeAttr [] 0 r of
           None \<Rightarrow> []
         | Some (attrs, k) \<Rightarrow> TOpen (toLowerCase name) attrs # tokenize (drop k r))
      else if c = ch CHR ''<'' \<and> (case cs of [] \<Rightarrow> False | d # _ \<Rightarrow> d = ch CHR ''!'' \<or> d = ch CHR ''?'') then
        (let n = length (takeWhile (\<lambda>x. x \<noteq> ch CHR ''>'') cs) in
         if n < length cs then TDirective (take n cs) # tokenize (drop (Suc n) cs) else [])
      else
        (let n = length (takeWhile (\<lambda>x. x \<noteq> ch CHR ''<'') cs) in
         TText (c # take n cs) # tokenize (drop n cs)))"

text \<open>
  The tree builder. A frame is an open element: its name, its attributes and the
  children read so far, the last one first. The stack holds the open elements, the
  innermost first; its last frame, of the empty name, is the root.
\<close>

type_synonym frame = "jsstring \<times> (jsstring \<times> jsstring) list \<times> node list"

definition void_elements :: "jsstring list" where
  "void_elements = map str [''area'', ''base'', ''basefont'', ''br'', ''col'', ''command'',
     ''embed'', ''frame'', ''hr'', ''img'', ''input'', ''isindex'', ''keygen'', ''link'',
     ''meta'', ''param'', ''source'', ''track'', ''wbr'']"

fun add_child :: "node \<Rightarrow> frame list \<Rightarrow> frame list" where
  "add_child n [] = [([], [], [n])]"
| "add_child n ((nm, as, kids) # fs) = (nm, as, n # kids) # fs"

fun close_top :: "frame list \<Rightarrow> frame list" where
  "close_top ((nm, as, kids) # f # fs) = add_child (Element nm as (rev kids)) (f # fs)"
| "close_top fs = fs"

text \<open>\<open>close_upto name fs\<close> closes the open elements down to the nearest one named \<open>name\<close>.\<close>

fun close_upto :: "jsstring \<Rightarrow> frame list \<Rightarrow> frame list" where
  "close_upto name ((nm, as, kids) # f # fs) =
     (if nm = name then close_top ((nm, as, kids) # f # fs)
      else close_upto name (close_top ((nm, as, kids) # f # fs)))"
| "close_upto name fs = fs"

fun close_all :: "frame list \<Rightarrow> node list" where
  "close_all [] = []"
| "close_all [(nm, as, kids)] = rev kids"
| "close_all ((nm, as, kids) # f # fs) = close_all (add_child (Element nm as (rev kids)) (f # fs))"

text \<open>The names of the open elements, the root frame left out.\<close>

definition open_names :: "frame list \<Rightarrow> jsstring list" where
  "open_names fs = map fst (butlast fs)"

fun build :: "token list \<Rightarrow> frame list \<Rightarrow> node list" where
  "build [] fs = close_all fs"
| "build (TText t # ts) fs = build ts (add_child (Text t) fs)"
| "build (TComment t # ts) fs = build ts (add_child (Comment t) fs)"
| "build (TDirective t # ts) fs = build ts (add_child (Directive t) fs)"
| "build (TOpen name attrs # ts) fs =
     (if name \<in> set void_elements then build ts (add_child (Element name attrs []) fs)
      else build ts ((name, attrs, []) # fs))"
| "build (TClose name # ts) fs =
     (if name \<in> set (open_names fs) then build ts (close_upto name fs) else build ts fs)"

text \<open>\<open>cheerio.load(html, { decodeEntities: false })\<close>, and the parse of a string given to
  \<open>after\<close>, \<open>prepend\<close> or \<open>append\<close>.\<close>

definition load :: "jsstring \<Rightarrow> node list" where
  "load html = build (tokenize html) [([], [], [])]"

text \<open>
  \<open>html()\<close>: the serializer. An attribute of empty value is written as its name alone,
  a void element has no end tag.
\<close>

fun html_attrs :: "(jsstring \<times> jsstring) list \<Rightarrow> jsstring" where
  "html_attrs [] = []"
| "html_attrs ((n, v) # as) =
     (if v = [] then str '' '' @ n else str '' '' @ n @ [ch CHR ''='', ch CHR 0x22] @ v @ [ch CHR 0x22])
     @ html_attrs as"

fun html_node :: "node \<Rightarrow> jsstring"
  and html_nodes :: "node list \<Rightarrow> jsstring" where
  "html_node (Text t) = t"
| "html_node (Comment t) = str ''<!--'' @ t @ str ''-->''"
| "html_node (Directive t) = str ''<'' @ t @ str ''>''"
| "html_node (Element nm as kids) =
     (if nm \<in> set void_elements then str ''<'' @ nm @ html_attrs as @ str ''>''
      else str ''<'' @ nm @ html_attrs as @ str ''>'' @ html_nodes kids @ str ''</'' @ nm @ str ''>'')"
| "html_nodes [] = []"
| "html_nodes (n # ns) = html_node n @ html_nodes ns"

text \<open>\<open>$(name).length > 0\<close>: the tree has an element of this name.\<close>

fun has_element :: "jsstring \<Rightarrow> node \<Rightarrow> bool"
  and has_elements :: "jsstring \<Rightarrow> node list \<Rightarrow> bool" where
  "has_element name (Element nm as kids) = (nm = name \<or> has_elements name kids)"
| "has_element name (Text t) = False"
| "has_element name (Comment t) = False"
| "has_element name (Directive t) = False"
| "has_elements name [] = False"
| "has_elements name (n # ns) = (has_element name n \<or> has_elements name ns)"

text \<open>\<open>$('anc name').length > 0\<close>: an element \<open>name\<close> lies inside an element \<open>anc\<close>.\<close>

fun has_inside :: "jsstring \<Rightarrow> jsstring \<Rightarrow> node \<Rightarrow> bool"
  and has_insides :: "jsstring \<Rightarrow> jsstring \<Rightarrow> node list \<Rightarrow> bool" where
  "has_inside anc name (Element nm as kids) =
     (if nm = anc then has_elements name kids else has_insides anc name kids)"
| "has_inside anc name (Text t) = False"
| "has_inside anc name (Comment t) = False"
| "has_inside anc name (Directive t) = False"
| "has_insides anc name [] = False"
| "has_insides anc name (n # ns) = (has_inside anc name n \<or> has_insides anc name ns)"

text \<open>
  \<open>$('anc name').first().after(ins)\<close>: the nodes \<open>ins\<close> are put behind the first element
  \<open>name\<close>, in document order, that lies inside an element \<open>anc\<close>. \<open>inside\<close> says whether
  the nodes visited lie inside such an element; the second component of the result says
  whether the insertion has been made.
\<close>

fun after_first :: "jsstring \<Rightarrow> jsstring \<Rightarrow> node list \<Rightarrow> bool \<Rightarrow> node \<Rightarrow> node \<times> bool"
  and after_firsts :: "jsstring \<Rightarrow> jsstring \<Rightarrow> node list \<Rightarrow> bool \<Rightarrow> node list \<Rightarrow> node list \<times> bool" where
  "after_first anc name ins inside (Element nm as kids) =
     (case after_firsts anc name ins (inside \<or> nm = anc) kids of
        (kids', done) \<Rightarrow> (Element nm as kids', done))"
| "after_first anc name ins inside (Text t) = (Text t, False)"
| "after_first anc name ins inside (Comment t) = (Comment t, False)"
| "after_first anc name ins inside (Directive t) = (Directive t, False)"
| "after_firsts anc name ins inside [] = ([], False)"
| "after_firsts anc name ins inside (n # ns) =
     (if inside \<and> (case n of Element nm as kids \<Rightarrow> nm = name | _ \<Rightarrow> False) then (n # ins @ ns, True)
      else case after_first anc name ins inside n of
        (n', True) \<Rightarrow> (n' # ns, True)
      | (n', False) \<Rightarrow> (case after_firsts anc name ins inside ns of (ns', done) \<Rightarrow> (n # ns', done)))"

text \<open>
  \<open>$(name).prepend(ins)\<close> and \<open>$(name).append(ins)\<close>: every element of the name, as the
  tree had them before the call, gets the nodes as its first or its last children.
\<close>

fun prepend_to :: "jsstring \<Rightarrow> node list \<Rightarrow> node \<Rightarrow> node"
  and prepend_tos :: "jsstring \<Rightarrow> node list \<Rightarrow> node list \<Rightarrow> node list" where
  "prepend_to name ins (Element nm as kids) =
     Element nm as ((if nm = name then ins else []) @ prepend_tos name ins kids)"
| "prepend_to name ins (Text t) = Text t"
| "prepend_to name ins (Comment t) = Comment t"
| "prepend_to name ins (Directive t) = Directive t"
| "prepend_tos name ins [] = []"
| "prepend_tos name ins (n # ns) = prepend_to name ins n # prepend_tos name ins ns"

fun append_to :: "jsstring \<Rightarrow> node list \<Rightarrow> node \<Rightarrow> node"
  and append_tos :: "jsstring \<Rightarrow> node list \<Rightarrow> node list \<Rightarrow> node list" where
  "append_to name ins (Element nm as kids) =
     Element nm as (append_tos name ins kids @ (if nm = name then ins else []))"
| "append_to name ins (Text t) = Text t"
| "append_to name ins (Comment t) = Comment t"
| "append_to name ins (Directive t) = Directive t"
| "append_tos name ins [] = []"
| "append_tos name ins (n # ns) = append_to name ins n # append_tos name ins ns"

text \<open>\<open>$(name).html()\<close>: the contents of the first element of the name, serialized.\<close>

fun inner_html :: "jsstring \<Rightarrow> node \<Rightarrow> jsstring option"
  and inner_htmls :: "jsstring \<Rightarrow> node list \<Rightarrow> jsstring option" where
  "inner_html name (Element nm as kids) =
     (if nm = name then Some (html_nodes kids) else inner_htmls name kids)"
| "inner_html name (Text t) = None"
| "inner_html name (Comment t) = None"
| "inner_html name (Directive t) = None"
| "inner_htmls name [] = None"
| "inner_htmls name (n # ns) =
     (case inner_html name n of Some h \<Rightarrow> Some h | None \<Rightarrow> inner_htmls name ns)"

text \<open>\<open>$('.wpcf7').remove()\<close>: the elements whose \<open>class\<close> has the word \<open>wpcf7\<close> leave the tree.\<close>

fun split_ws :: "jsstring \<Rightarrow> jsstring \<Rightarrow> jsstring list" where
  "split_ws acc [] = (if acc = [] then [] else [acc])"
| "split_ws acc (c # cs) =
     (if is_ws c then (if acc = [] then split_ws [] cs else acc # split_ws [] cs)
      else split_ws (acc @ [c]) cs)"

definition has_class :: "jsstring \<Rightarrow> (jsstring \<times> jsstring) list \<Rightarrow> bool" where
  "has_class cls as =
     (case map_of as (str ''class'') of None \<Rightarrow> False | Some v \<Rightarrow> cls \<in> set (split_ws [] v))"

fun remove_class :: "jsstring \<Rightarrow> node \<Rightarrow> node"
  and remove_classes :: "jsstring \<Rightarrow> node list \<Rightarrow> node list" where
  "remove_class cls (Element nm as kids) = Element nm as (remove_classes cls kids)"
| "remove_class cls (Text t) = Text t"
| "remove_class cls (Comment t) = Comment t"
| "remove_class cls (Directive t) = Directive t"
| "remove_classes cls [] = []"
| "remove_classes cls (n # ns) =
     (if (case n of Element nm as kids \<Rightarrow> has_class cls as | _ \<Rightarrow> False) then remove_classes cls ns
      else remove_class cls n # remove_classes cls ns)"

section \<open>html.ts: the placement engine\<close>

text \<open>
  The fields of the result; \<open>method_used\<close> is the field \<open>method\<close> of the source.
\<close>

datatype container = ArticleC | BodyC | RootC

datatype insert_method = Prepend | Append | AfterFirstP

record placement =
  container :: container
  position :: position
  method_used :: insert_method

record InsertResult =
  html :: jsstring
  placement :: "placement option"

definition removeContactFormShortcodesAndForms :: "jsstring \<Rightarrow> jsstring" where
  "removeContactFormShortcodesAndForms html0 =
     (let result = replace_all match_shortcode 0 html0;
          doc = load result
      in html_nodes (remove_classes (str ''wpcf7'') doc))"

text \<open>The marker and the block of \<open>insertWidgetHtml\<close>, before and after its \<open>replace\<close>.\<close>

definition marker :: "jsstring \<Rightarrow> jsstring" where
  "marker widgetId = str ''<!-- ai-cta:start id='' @ widgetId @ str '' -->''"

definition nl :: jsstring where
  "nl = [10]"

definition raw_block :: "jsstring \<Rightarrow> jsstring \<Rightarrow> jsstring \<Rightarrow> jsstring" where
  "raw_block widgetId widgetHtml ctaText =
     marker widgetId @ nl @ str ''<p class='' @ [ch CHR 0x22] @ str ''ai-cta-text'' @ [ch CHR 0x22]
       @ str ''>'' @ ctaText @ str ''</p>'' @ nl @ widgetHtml @ nl @ str ''<!-- ai-cta:end -->''"

definition block :: "jsstring \<Rightarrow> jsstring \<Rightarrow> jsstring \<Rightarrow> jsstring" where
  "block widgetId widgetHtml ctaText =
     replace_all match_wp_marker 0 (raw_block widgetId widgetHtml ctaText)"

text \<open>The tree after the insertion, with the container and the method used.\<close>

definition place :: "node list \<Rightarrow> jsstring \<Rightarrow> position \<Rightarrow> node list \<times> container \<times> insert_method" where
  "place doc blk pos =
     (case pos of
        Top \<Rightarrow>
          if has_elements (str ''article'') doc \<and> has_insides (str ''article'') (str ''p'') doc then
            (fst (after_firsts (str ''article'') (str ''p'') (load (nl @ blk @ nl)) False doc),
             ArticleC, AfterFirstP)
          else if has_elements (str ''body'') doc \<and> has_insides (str ''body'') (str ''p'') doc then
            (fst (after_firsts (str ''body'') (str ''p'') (load (nl @ blk @ nl)) False doc),
             BodyC, AfterFirstP)
          else if has_elements (str ''article'') doc then
            (prepend_tos (str ''article'') (load (blk @ nl)) doc, ArticleC, Prepend)
          else if has_elements (str ''body'') doc then
            (prepend_tos (str ''body'') (load (blk @ nl)) doc, BodyC, Prepend)
          else (load (blk @ nl) @ doc, RootC, Prepend)
      | Bottom \<Rightarrow>
          if has_elements (str ''article'') doc then
            (append_tos (str ''article'') (load (nl @ blk)) doc, ArticleC, Append)
          else if has_elements (str ''body'') doc then
            (append_tos (str ''body'') (load (nl @ blk)) doc, BodyC, Append)
          else (doc @ load (nl @ blk), RootC, Append))"

text \<open>The result: the contents of \<open>article\<close>, else of \<open>body\<close>, else the whole tree.\<close>

definition result_html :: "node list \<Rightarrow> jsstring" where
  "result_html doc =
     (case inner_htmls (str ''article'') doc of
        Some h \<Rightarrow> h
      | None \<Rightarrow>
          (case inner_htmls (str ''body'') doc of
             Some h \<Rightarrow> h
           | None \<Rightarrow> html_nodes doc))"

definition insertWidgetHtml :: "jsstring \<Rightarrow> jsstring \<Rightarrow> jsstring \<Rightarrow> jsstring \<Rightarrow> position \<Rightarrow> InsertResult" where
  "insertWidgetHtml html0 widgetId widgetHtml ctaText pos =
     (let html1 = removeContactFormShortcodesAndForms html0;
          html2 = cleanWpPostContentMarkers html1;
          doc = load html2;
          blk = block widgetId widgetHtml ctaText;
          (doc', cont, meth) = place doc blk pos
      in \<lparr> html = cleanWpPostContentMarkers (result_html doc'),
           placement = Some \<lparr> container = cont, position = pos, method_used = meth \<rparr> \<rparr>)"

section \<open>placement.ts: the widget catalog\<close>

record WidgetInfo =
  widget_id :: jsstring
  widget_type :: jsstring
  topics :: "jsstring list"
  embed_html :: jsstring
  default_placement :: position

text \<open>
  \<open>getWidgetHtmlById\<close> reads \<open>widgets.json\<close> at every call; the list it parses from the
  file is the first argument.
\<close>

definition getWidgetHtmlById :: "WidgetInfo list \<Rightarrow> jsstring \<Rightarrow> error + (jsstring \<times> position)" where
  "getWidgetHtmlById widgets widgetId =
     (case find (\<lambda>w. widget_id w = widgetId) widgets of
        None \<Rightarrow> Inl (WidgetNotFound widgetId)
      | Some widget \<Rightarrow> Inr (embed_html widget, default_placement widget))"

section \<open>The collaborators: content source, model client, runtime\<close>

text \<open>
  What the program reaches over the network or through the runtime is a field of the
  environment: the three calls of wordpress.ts, the completion of the model, and
  \<open>JSON.parse\<close> on the model's answer (\<open>None\<close> when it throws), reduced to the three
  properties \<open>pickWidgetByContent\<close> reads. A property is a string or something else
  (a missing property included).
\<close>

datatype jsfield = JStr jsstring | JOther

record llm_json =
  j_best_widget_id :: jsfield
  j_placement_strategy :: jsfield
  j_cta_text :: jsfield

record post =
  post_id :: nat
  rendered :: "jsstring option"

text \<open>A value passed to \<open>updatePostContent\<close>: a string, or the object \<open>insertWidgetHtml\<close> returns.\<close>

datatype jsval = VString jsstring | VInsertResult InsertResult

record env =
  listPosts :: "int \<Rightarrow> nat \<Rightarrow> error + post list"
  getPost :: "nat \<Rightarrow> error + post"
  updatePostContent :: "nat \<Rightarrow> jsval \<Rightarrow> error + unit"
  complete :: "jsstring \<Rightarrow> WidgetInfo list \<Rightarrow> error + jsstring"
  json_parse :: "jsstring \<Rightarrow> llm_json option"
  widgets_json :: "WidgetInfo list"

text \<open>The strict equality \<open>===\<close>: a string and an object are never equal.\<close>

fun strict_equals :: "jsval \<Rightarrow> jsval \<Rightarrow> bool" where
  "strict_equals (VString a) (VString b) = (a = b)"
| "strict_equals (VString a) (VInsertResult r) = False"
| "strict_equals (VInsertResult r) (VString b) = False"
| "strict_equals (VInsertResult r) (VInsertResult r') = False"

section \<open>llm.ts: the choice of a widget\<close>

record WidgetChoiceResult =
  best_widget_id :: jsstring
  placement_strategy :: position
  cta_text :: jsstring

text \<open>\<open>text.trim()\<close> and the three \<open>replace\<close> calls that take a Markdown fence off.\<close>

definition trim :: "jsstring \<Rightarrow> jsstring" where
  "trim s = rev (dropWhile is_space (rev (dropWhile is_space s)))"

definition is_crlf :: "nat \<Rightarrow> bool" where
  "is_crlf c = (c = 13 \<or> c = 10)"

text \<open>\<^verbatim>\<open>/^<fence>[\r\n]+/i\<close> for a fence \<open>pat\<close>, replaced by the empty string.\<close>

definition strip_leading :: "jsstring \<Rightarrow> jsstring \<Rightarrow> jsstring" where
  "strip_leading pat s =
     (if ci_starts_with s pat \<and> (case drop (length pat) s of [] \<Rightarrow> False | d # _ \<Rightarrow> is_crlf d)
      then dropWhile is_crlf (drop (length pat) s) else s)"

text \<open>\<^verbatim>\<open>/```\s*$/i\<close>, replaced by the empty string: the first fence with only white space behind it.\<close>

fun strip_trailing_fence :: "jsstring \<Rightarrow> jsstring" where
  "strip_trailing_fence [] = []"
| "strip_trailing_fence (c # cs) =
     (if starts_with (c # cs) (str ''```'') \<and> list_all is_space (drop 2 cs) then []
      else c # strip_trailing_fence cs)"

definition strip_fences :: "jsstring \<Rightarrow> jsstring" where
  "strip_fences content =
     strip_trailing_fence (strip_leading (str ''```'') (strip_leading (str ''```json'') (trim content)))"

definition pickWidgetByContent :: "env \<Rightarrow> jsstring \<Rightarrow> WidgetInfo list \<Rightarrow> error + WidgetChoiceResult" where
  "pickWidgetByContent e articleText widgets =
     (case complete e articleText widgets of
        Inl err \<Rightarrow> Inl err
      | Inr content \<Rightarrow>
          (let text = strip_fences content in
           case json_parse e text of
             None \<Rightarrow> Inl (LLMParseError text)
           | Some json \<Rightarrow>
               (case j_placement_strategy json of
                  JOther \<Rightarrow> Inl (LLMParseError text)
                | JStr raw \<Rightarrow>
                    (case normalizePlacementStrategy raw of
                       Inl err \<Rightarrow> Inl (LLMParseError text)
                     | Inr strategy \<Rightarrow>
                         (case (j_best_widget_id json, j_cta_text json) of
                            (JStr wid, JStr cta) \<Rightarrow>
                              Inr \<lparr> best_widget_id = wid, placement_strategy = strategy, cta_text = cta \<rparr>
                          | _ \<Rightarrow> Inl (LLMParseError text))))))"

section \<open>The batch orchestrator\<close>

text \<open>
  What a run does to the outside is its trace: the calls of \<open>updatePostContent\<close> and
  of \<open>saveState\<close>, the batches given to \<open>Promise.all\<close>, and the lines logged.
\<close>

datatype event =
    UpdateCall nat jsval
  | Dispatched "nat list"
  | SaveState "nat list"
  | LogUpdated nat
  | LogUnchanged nat
  | LogError nat error
  | LogDone nat
  | LogLimitReached
  | LogContentUnchanged
  | LogContentUpdated
  | LogDryRunWouldUpdate

record PostResult =
  postId :: nat
  changed :: bool

definition position_string :: "position \<Rightarrow> jsstring" where
  "position_string p = (case p of Top \<Rightarrow> str ''top'' | Bottom \<Rightarrow> str ''bottom'')"

text \<open>
  \<open>processPost\<close> calls \<open>insertWidgetHtml\<close> with four arguments: the placement strategy
  stands where the lead text is expected and the position is left to its default,
  \<open>top\<close>. \<open>newHtml\<close> is the object the call returns, and it is this object that is
  compared with \<open>articleText\<close> and passed to \<open>updatePostContent\<close>.
\<close>

definition processPost :: "env \<Rightarrow> nat \<Rightarrow> WidgetInfo list \<Rightarrow> bool \<Rightarrow> (error + PostResult) \<times> event list" where
  "processPost e pid widgets dry =
     (case getPost e pid of
        Inl err \<Rightarrow> (Inl err, [])
      | Inr p \<Rightarrow>
          (let articleText = (case rendered p of None \<Rightarrow> [] | Some r \<Rightarrow> r) in
           case pickWidgetByContent e articleText widgets of
             Inl err \<Rightarrow> (Inl err, [])
           | Inr llmResult \<Rightarrow>
               (case getWidgetHtmlById (widgets_json e) (best_widget_id llmResult) of
                  Inl err \<Rightarrow> (Inl err, [])
                | Inr (widgetHtml, dflt) \<Rightarrow>
                    (let newHtml = VInsertResult (insertWidgetHtml articleText (best_widget_id llmResult)
                           widgetHtml (position_string (placement_strategy llmResult)) Top) in
                     if strict_equals (VString articleText) newHtml
                       then (Inr \<lparr> postId = pid, changed = False \<rparr>, [])
                     else if \<not> dry then
                       (case updatePostContent e pid newHtml of
                          Inl err \<Rightarrow> (Inl err, [UpdateCall pid newHtml])
                        | Inr u \<Rightarrow> (Inr \<lparr> postId = pid, changed = True \<rparr>, [UpdateCall pid newHtml]))
                     else (Inr \<lparr> postId = pid, changed = True \<rparr>, [])))))"

record args =
  dryRun :: bool
  limit :: int
  par :: nat

text \<open>\<open>processed.add(id)\<close> on a \<open>Set\<close>, kept as the list of its elements in insertion order.\<close>

definition set_add :: "nat \<Rightarrow> nat list \<Rightarrow> nat list" where
  "set_add x xs = (if x \<in> set xs then xs else xs @ [x])"

text \<open>\<open>xs.slice(0, n)\<close>: a negative \<open>n\<close> counts from the end.\<close>

definition slice0 :: "int \<Rightarrow> 'a list \<Rightarrow> 'a list" where
  "slice0 n xs = (if 0 \<le> n then take (nat n) xs else take (nat (int (length xs) + n)) xs)"

text \<open>\<open>posts.filter((p) => !processed.has(p.id)).slice(0, limit)\<close>\<close>

definition toProcess :: "args \<Rightarrow> nat list \<Rightarrow> post list \<Rightarrow> post list" where
  "toProcess a processed posts =
     slice0 (limit a) (filter (\<lambda>p. post_id p \<notin> set processed) posts)"

text \<open>The batches \<open>toProcess.slice(i, i + par)\<close> for \<open>i = 0, par, 2 * par, ...\<close>, for a positive \<open>par\<close>.\<close>

fun chunks :: "nat \<Rightarrow> 'a list \<Rightarrow> 'a list list" where
  "chunks n xs = (if n = 0 \<or> xs = [] then [] else take n xs # chunks n (drop n xs))"

declare chunks.simps [simp del]

text \<open>
  One batch: \<open>Promise.all\<close> over the tasks. No task touches what another one reads but
  the set \<open>processed\<close>, to which each adds its own identifier, so the tasks are run one
  after the other, in the order of the batch. A task that throws is logged and adds
  nothing.
\<close>

fun run_batch :: "env \<Rightarrow> args \<Rightarrow> post list \<Rightarrow> nat list \<Rightarrow> event list \<Rightarrow> nat list \<times> event list" where
  "run_batch e a [] processed tr = (processed, tr)"
| "run_batch e a (p # ps) processed tr =
     (case processPost e (post_id p) (widgets_json e) (dryRun a) of
        (Inr res, evs) \<Rightarrow>
          run_batch e a ps (set_add (post_id p) processed)
            (tr @ evs @ [if changed res then LogUpdated (post_id p) else LogUnchanged (post_id p)])
      | (Inl err, evs) \<Rightarrow>
          run_batch e a ps processed (tr @ evs @ [LogError (post_id p) err]))"

text \<open>The loop over the batches of a page; the first component of the result is \<open>stop\<close>.\<close>

fun run_batches :: "env \<Rightarrow> args \<Rightarrow> post list list \<Rightarrow> nat \<Rightarrow> nat list \<Rightarrow> event list
    \<Rightarrow> bool \<times> nat \<times> nat list \<times> event list" where
  "run_batches e a [] totalProcessed processed tr = (False, totalProcessed, processed, tr)"
| "run_batches e a (b # bs) totalProcessed processed tr =
     (case run_batch e a b processed (tr @ [Dispatched (map post_id b)]) of
        (processed', tr') \<Rightarrow>
          if totalProcessed + length b \<ge> 600 then (True, totalProcessed + length b, processed', tr')
          else run_batches e a bs (totalProcessed + length b) processed' tr')"

text \<open>
  The loop over the pages. Each turn that goes on has run at least one batch, and a
  batch is not empty, so \<open>totalProcessed\<close> grows and the loop ends before it reaches 600.
  For \<open>par = 0\<close> the loop that cuts the batches never ends: the result is \<open>None\<close>.
\<close>

lemma run_batches_total_mono:
  "run_batches e a bs t p tr = (stop, t', p', tr') \<Longrightarrow> t \<le> t'"
proof (induction bs arbitrary: t p tr)
  case Nil
  then show ?case by simp
next
  case (Cons b bs)
  obtain p1 tr1 where rb: "run_batch e a b p (tr @ [Dispatched (map post_id b)]) = (p1, tr1)"
    by (cases "run_batch e a b p (tr @ [Dispatched (map post_id b)])")
  show ?case
  proof (cases "600 \<le> t + length b")
    case True
    with Cons.prems rb show ?thesis by simp
  next
    case False
    with Cons.prems rb have "run_batches e a bs (t + length b) p1 tr1 = (stop, t', p', tr')"
      by simp
    from Cons.IH [OF this] show ?thesis by simp
  qed
qed

lemma run_batches_total_grows:
  assumes "run_batches e a (b # bs) t p tr = (stop, t', p', tr')"
  shows "t + length b \<le> t'"
  using assms run_batches_total_mono
  by (fastforce split: prod.splits if_splits)

lemma chunks_Cons:
  "0 < n \<Longrightarrow> xs \<noteq> [] \<Longrightarrow> chunks n xs = take n xs # chunks n (drop n xs)"
  by (subst chunks.simps) simp

lemma chunks_Nil: "chunks n [] = []"
  by (subst chunks.simps) simp

lemma main_loop_progress:
  assumes "ps \<noteq> []" and "par a \<noteq> 0"
    and "run_batches e a (chunks (par a) ps) t processed tr = (stop, t', processed', tr')"
  shows "t < t'"
proof -
  from assms(2) have par: "0 < par a" by simp
  have "chunks (par a) ps = take (par a) ps # chunks (par a) (drop (par a) ps)"
    using chunks_Cons [OF par assms(1)] .
  with assms(3) have "t + length (take (par a) ps) \<le> t'"
    using run_batches_total_grows by metis
  moreover have "0 < length (take (par a) ps)"
    using assms(1) par by simp
  ultimately show ?thesis by linarith
qed

function main_loop :: "env \<Rightarrow> args \<Rightarrow> nat \<Rightarrow> nat \<Rightarrow> nat list \<Rightarrow> event list
    \<Rightarrow> ((error + nat list) \<times> event list) option" where
  "main_loop e a page totalProcessed processed tr =
     (if totalProcessed < 600 then
        (case listPosts e (limit a) page of
           Inl err \<Rightarrow> Some (Inl err, tr)
         | Inr posts \<Rightarrow>
             if posts = [] then Some (Inr processed, tr)
             else if toProcess a processed posts = [] then Some (Inr processed, tr)
             else if par a = 0 then None
             else
               (case run_batches e a (chunks (par a) (toProcess a processed posts))
                       totalProcessed processed tr of
                  (stop, totalProcessed', processed', tr') \<Rightarrow>
                    if stop then Some (Inr processed', tr' @ [SaveState processed'])
                    else main_loop e a (Suc page) totalProcessed' processed'
                           (tr' @ [SaveState processed'])))
      else Some (Inr processed, tr))"
  by pat_completeness auto
termination
proof (relation "measure (\<lambda>(e, a, page, t, processed, tr). 600 - t)", goal_cases)
  case 1
  then show ?case by simp
next
  case (2 e a page t processed tr posts stop y t' z processed' tr')
  then have "run_batches e a (chunks (par a) (toProcess a processed posts)) t processed tr
      = (stop, t', processed', tr')"
    by simp
  from main_loop_progress [OF _ _ this] 2 have "t < t'" by blast
  with 2 show ?case by simp
qed

declare main_loop.simps [simp del]

text \<open>
  \<open>main\<close> of the batch driver. \<open>state_processed\<close> is the array \<open>state.processed || []\<close> of
  the state that \<open>loadState\<close> returned; the run starts at page 1. A failure of
  \<open>listPosts\<close> ends the run with exit code 1, without a last \<open>saveState\<close>.
\<close>

definition main :: "env \<Rightarrow> args \<Rightarrow> nat list \<Rightarrow> ((error + nat list) \<times> event list) option" where
  "main e a state_processed =
     (case main_loop e a 1 0 (fold set_add state_processed []) [] of
        None \<Rightarrow> None
      | Some (Inl err, tr) \<Rightarrow> Some (Inl err, tr)
      | Some (Inr processed, tr) \<Rightarrow>
          Some (Inr processed, tr @ [SaveState processed, LogDone (length processed)]))"

text \<open>
  Two readings of a run, used to state what it did: whether the task of an article
  returns (does not throw), and the batches a trace shows as dispatched.
\<close>

definition task_ok :: "env \<Rightarrow> args \<Rightarrow> nat \<Rightarrow> bool" where
  "task_ok e a pid =
     (case fst (processPost e pid (widgets_json e) (dryRun a)) of Inr res \<Rightarrow> True | Inl err \<Rightarrow> False)"

fun dispatched :: "event list \<Rightarrow> nat list list" where
  "dispatched [] = []"
| "dispatched (Dispatched ids # tr) = ids # dispatched tr"
| "dispatched (ev # tr) = dispatched tr"

text \<open>
  The tasks that returned among the batches \<open>bs\<close>, and the checkpoints of a trace: each
  \<open>saveState\<close> with the batches dispatched before it.
\<close>

definition succeeded :: "env \<Rightarrow> args \<Rightarrow> nat list list \<Rightarrow> nat set" where
  "succeeded e a bs = {pid \<in> set (concat bs). task_ok e a pid}"

fun checkpoints :: "nat list list \<Rightarrow> event list \<Rightarrow> (nat list list \<times> nat list) list" where
  "checkpoints acc [] = []"
| "checkpoints acc (Dispatched ids # tr) = checkpoints (acc @ [ids]) tr"
| "checkpoints acc (SaveState xs # tr) = (acc, xs) # checkpoints acc tr"
| "checkpoints acc (ev # tr) = checkpoints acc tr"


text \<open>The invariant of the loop over the pages, for the set \<open>S\<close> loaded at the start.\<close>

definition loop_inv :: "env \<Rightarrow> args \<Rightarrow> nat set \<Rightarrow> nat list \<Rightarrow> event list \<Rightarrow> bool" where
  "loop_inv e a S pr tr =
     (set pr = S \<union> succeeded e a (dispatched tr)
      \<and> list_all (\<lambda>(d, xs). set xs = S \<union> succeeded e a d) (checkpoints [] tr)
      \<and> set (concat (dispatched tr)) \<inter> S = {})"


section \<open>runOne.ts: the single-article driver\<close>

text \<open>
  The two insertions of \<open>main\<close>: the lead magnet into the article, then the webinar into
  the result, each at the position its decision names.
\<close>

definition finalHtml :: "jsstring \<Rightarrow> WidgetChoiceResult \<Rightarrow> jsstring \<Rightarrow> WidgetChoiceResult \<Rightarrow> jsstring \<Rightarrow> jsstring" where
  "finalHtml articleText leadmagnetResult leadmagnet_html webinarResult webinar_html =
     (let htmlWithBottom =
            (case placement_strategy leadmagnetResult of
               Bottom \<Rightarrow> html (insertWidgetHtml articleText (best_widget_id leadmagnetResult)
                             leadmagnet_html (cta_text leadmagnetResult) Bottom)
             | Top \<Rightarrow> html (insertWidgetHtml articleText (best_widget_id leadmagnetResult)
                          leadmagnet_html (cta_text leadmagnetResult) Top))
      in case placement_strategy webinarResult of
           Top \<Rightarrow> html (insertWidgetHtml htmlWithBottom (best_widget_id webinarResult)
                        webinar_html (cta_text webinarResult) Top)
         | Bottom \<Rightarrow> html (insertWidgetHtml htmlWithBottom (best_widget_id webinarResult)
                           webinar_html (cta_text webinarResult) Bottom))"

definition runOne_main :: "env \<Rightarrow> nat \<Rightarrow> bool \<Rightarrow> (error + unit) \<times> event list" where
  "runOne_main e pid dry =
     (if pid = 0 then (Inl UsageError, [])
      else case getPost e pid of
        Inl err \<Rightarrow> (Inl err, [])
      | Inr p \<Rightarrow>
          (let widgets = widgets_json e;
               articleText = (case rendered p of None \<Rightarrow> [] | Some r \<Rightarrow> r) in
           if countWidgets articleText \<ge> 2 then (Inr (), [LogLimitReached])
           else
             (case pickWidgetByContent e articleText
                     (filter (\<lambda>w. widget_type w = str ''webinar'') widgets) of
                Inl err \<Rightarrow> (Inl err, [])
              | Inr webinarResult \<Rightarrow>
                  (case getWidgetHtmlById widgets (best_widget_id webinarResult) of
                     Inl err \<Rightarrow> (Inl err, [])
                   | Inr (webinar_html, d1) \<Rightarrow>
                       (case pickWidgetByContent e articleText
                               (filter (\<lambda>w. widget_type w = str ''lead_magnet'') widgets) of
                          Inl err \<Rightarrow> (Inl err, [])
                        | Inr leadmagnetResult \<Rightarrow>
                            (case getWidgetHtmlById widgets (best_widget_id leadmagnetResult) of
                               Inl err \<Rightarrow> (Inl err, [])
                             | Inr (leadmagnet_html, d2) \<Rightarrow>
                                 (let final = finalHtml articleText leadmagnetResult leadmagnet_html
                                                webinarResult webinar_html in
                                  if dry then
                                    (Inr (), [if articleText = final then LogContentUnchanged
                                              else LogDryRunWouldUpdate])
                                  else if articleText = final then (Inr (), [LogContentUnchanged])
                                  else
                                    (case updatePostContent e pid (VString final) of
                                       Inl err \<Rightarrow> (Inl err, [UpdateCall pid (VString final)])
                                     | Inr u \<Rightarrow>
                                         (Inr (), [UpdateCall pid (VString final), LogContentUpdated])))))))))"

section \<open>state.ts: the state store\<close>

text \<open>
  The state is a JSON value; \<open>JSON.stringify(state, null, 2)\<close> and \<open>JSON.parse\<close> are the
  runtime's (\<open>None\<close> when \<open>JSON.parse\<close> throws). The file system is the file
  \<open>data/state.json\<close>: its text, or \<open>None\<close> when there is no such file.
\<close>

datatype json =
    JNull
  | JBool bool
  | JNumber int
  | JString jsstring
  | JArray "json list"
  | JObject "(jsstring \<times> json) list"

record runtime =
  JSON_stringify :: "json \<Rightarrow> jsstring"
  JSON_parse :: "jsstring \<Rightarrow> json option"

type_synonym fs = "jsstring option"

definition loadState :: "runtime \<Rightarrow> fs \<Rightarrow> json" where
  "loadState rt file =
     (case file of
        None \<Rightarrow> JObject []
      | Some raw \<Rightarrow> (case JSON_parse rt raw of Some v \<Rightarrow> v | None \<Rightarrow> JObject []))"

definition saveState :: "runtime \<Rightarrow> json \<Rightarrow> fs \<Rightarrow> fs" where
  "saveState rt state file = Some (JSON_stringify rt state)"

section \<open>A JSON runtime\<close>

text \<open>
  A runtime for the witnesses: \<open>JSON.stringify(v, null, 2)\<close> and \<open>JSON.parse\<close> on the
  values built from \<open>null\<close>, booleans, integers, strings, arrays and objects.
\<close>

fun digits :: "nat \<Rightarrow> jsstring" where
  "digits n = (if n < 10 then [48 + n] else digits (n div 10) @ [48 + n mod 10])"

declare digits.simps [simp del]

definition show_int :: "int \<Rightarrow> jsstring" where
  "show_int i = (if i < 0 then ch CHR ''-'' # digits (nat (- i)) else digits (nat i))"

definition hex_digit :: "nat \<Rightarrow> nat" where
  "hex_digit d = (if d < 10 then 48 + d else 87 + d)"

definition escape_unit :: "nat \<Rightarrow> jsstring" where
  "escape_unit c =
     (if c = 34 then [92, 34] else if c = 92 then [92, 92]
      else if c = 8 then [92, 98] else if c = 12 then [92, 102]
      else if c = 10 then [92, 110] else if c = 13 then [92, 114]
      else if c = 9 then [92, 116]
      else if c < 32 then [92, 117, 48, 48, hex_digit (c div 16), hex_digit (c mod 16)]
      else [c])"

definition quote :: "jsstring \<Rightarrow> jsstring" where
  "quote s = [34] @ concat (map escape_unit s) @ [34]"

definition indent :: "nat \<Rightarrow> jsstring" where
  "indent n = replicate n 32"

fun stringify_at :: "nat \<Rightarrow> json \<Rightarrow> jsstring"
  and stringify_items :: "nat \<Rightarrow> json list \<Rightarrow> jsstring"
  and stringify_members :: "nat \<Rightarrow> (jsstring \<times> json) list \<Rightarrow> jsstring" where
  "stringify_at n JNull = str ''null''"
| "stringify_at n (JBool b) = (if b then str ''true'' else str ''false'')"
| "stringify_at n (JNumber i) = show_int i"
| "stringify_at n (JString s) = quote s"
| "stringify_at n (JArray []) = str ''[]''"
| "stringify_at n (JArray (x # xs)) =
     str ''['' @ nl @ stringify_items (n + 2) (x # xs) @ nl @ indent n @ str '']''"
| "stringify_at n (JObject []) = str ''{}''"
| "stringify_at n (JObject (m # ms)) =
     str ''{'' @ nl @ stringify_members (n + 2) (m # ms) @ nl @ indent n @ str ''}''"
| "stringify_items n [] = []"
| "stringify_items n (x # xs) =
     indent n @ stringify_at n x @ (if xs = [] then [] else str '','' @ nl @ stringify_items n xs)"
| "stringify_members n [] = []"
| "stringify_members n ((k, v) # ms) =
     indent n @ quote k @ str '': '' @ stringify_at n v
     @ (if ms = [] then [] else str '','' @ nl @ stringify_members n ms)"

text \<open>The parser; the first argument bounds the depth of the calls.\<close>

definition is_digit :: "nat \<Rightarrow> bool" where
  "is_digit c = (48 \<le> c \<and> c \<le> 57)"

definition read_nat :: "jsstring \<Rightarrow> nat" where
  "read_nat ds = foldl (\<lambda>acc d. 10 * acc + (d - 48)) 0 ds"

fun parse_string :: "jsstring \<Rightarrow> jsstring \<Rightarrow> (jsstring \<times> jsstring) option" where
  "parse_string acc [] = None"
| "parse_string acc [c] = (if c = 34 then Some (acc, []) else None)"
| "parse_string acc (c # d # cs) =
     (if c = 34 then Some (acc, d # cs)
      else if c = 92 then
        (if d = 34 \<or> d = 92 \<or> d = 47 then parse_string (acc @ [d]) cs
         else if d = 98 then parse_string (acc @ [8]) cs
         else if d = 102 then parse_string (acc @ [12]) cs
         else if d = 110 then parse_string (acc @ [10]) cs
         else if d = 114 then parse_string (acc @ [13]) cs
         else if d = 116 then parse_string (acc @ [9]) cs
         else None)
      else if c < 32 then None
      else parse_string (acc @ [c]) (d # cs))"

fun parse_value :: "nat \<Rightarrow> jsstring \<Rightarrow> (json \<times> jsstring) option"
  and parse_items :: "nat \<Rightarrow> json list \<Rightarrow> jsstring \<Rightarrow> (json \<times> jsstring) option"
  and parse_members :: "nat \<Rightarrow> (jsstring \<times> json) list \<Rightarrow> jsstring \<Rightarrow> (json \<times> jsstring) option" where
  "parse_value 0 s = None"
| "parse_value (Suc f) s =
     (case dropWhile is_ws s of
        [] \<Rightarrow> None
      | c # cs \<Rightarrow>
          if starts_with (c # cs) (str ''null'') then Some (JNull, drop 3 cs)
          else if starts_with (c # cs) (str ''true'') then Some (JBool True, drop 3 cs)
          else if starts_with (c # cs) (str ''false'') then Some (JBool False, drop 4 cs)
          else if c = 34 then map_option (\<lambda>(t, r). (JString t, r)) (parse_string [] cs)
          else if is_digit c then
            Some (JNumber (int (read_nat (takeWhile is_digit (c # cs)))), dropWhile is_digit cs)
          else if c = ch CHR ''-'' \<and> (case cs of [] \<Rightarrow> False | d # _ \<Rightarrow> is_digit d) then
            Some (JNumber (- int (read_nat (takeWhile is_digit cs))), dropWhile is_digit cs)
          else if c = ch CHR ''['' then
            (case dropWhile is_ws cs of
               [] \<Rightarrow> None
             | d # ds \<Rightarrow> if d = ch CHR '']'' then Some (JArray [], ds) else parse_items f [] (d # ds))
          else if c = ch CHR ''{'' then
            (case dropWhile is_ws cs of
               [] \<Rightarrow> None
             | d # ds \<Rightarrow> if d = ch CHR ''}'' then Some (JObject [], ds) else parse_members f [] (d # ds))
          else None)"
| "parse_items 0 acc s = None"
| "parse_items (Suc f) acc s =
     (case parse_value f s of
        None \<Rightarrow> None
      | Some (v, r) \<Rightarrow>
          (case dropWhile is_ws r of
             [] \<Rightarrow> None
           | c # cs \<Rightarrow>
               if c = ch CHR '','' then parse_items f (acc @ [v]) cs
               else if c = ch CHR '']'' then Some (JArray (acc @ [v]), cs)
               else None))"
| "parse_members 0 acc s = None"
| "parse_members (Suc f) acc s =
     (case dropWhile is_ws s of
        [] \<Rightarrow> None
      | q # qs \<Rightarrow>
          if q \<noteq> 34 then None
          else
            (case parse_string [] qs of
               None \<Rightarrow> None
             | Some (k, r) \<Rightarrow>
                 (case dropWhile is_ws r of
                    [] \<Rightarrow> None
                  | c # cs \<Rightarrow>
                      if c \<noteq> ch CHR '':'' then None
                      else
                        (case parse_value f cs of
                           None \<Rightarrow> None
                         | Some (v, r') \<Rightarrow>
                             (case dropWhile is_ws r' of
                                [] \<Rightarrow> None
                              | d # ds \<Rightarrow>
                                  if d = ch CHR '','' then parse_members f (acc @ [(k, v)]) ds
                                  else if d = ch CHR ''}'' then Some (JObject (acc @ [(k, v)]), ds)
                                  else None)))))"

definition json_runtime :: runtime where
  "json_runtime =
     \<lparr> JSON_stringify = stringify_at 0,
       JSON_parse = (\<lambda>text.
          case parse_value (Suc (length text)) text of
            None \<Rightarrow> None
          | Some (v, r) \<Rightarrow> if dropWhile is_ws r = [] then Some v else None) \<rparr>"

definition demo_state :: json where
  "demo_state = JObject [(str ''processed'', JArray [JNumber 42, JNumber 44])]"


section \<open>An example environment\<close>

text \<open>
  A source of three articles, 42, 43 and 44, on its first page and none behind it; the
  request for article 43 fails; the model answers with the widget \<open>w1\<close>, at the top.
\<close>

definition dq :: jsstring where "dq = [34]"

definition demo_widget_html :: jsstring where
  "demo_widget_html = str ''<script src='' @ dq @ str ''https://shkolamasterov.online/pl/lite/widget/script?id=1'' @ dq @ str ''></script>''"

definition demo_widgets :: "WidgetInfo list" where
  "demo_widgets =
     [\<lparr> widget_id = str ''w1'', widget_type = str ''webinar'', topics = [],
        embed_html = demo_widget_html, default_placement = Top \<rparr>,
      \<lparr> widget_id = str ''w2'', widget_type = str ''lead_magnet'', topics = [],
        embed_html = demo_widget_html, default_placement = Bottom \<rparr>]"

definition demo_reply :: jsstring where
  "demo_reply = str ''{'' @ dq @ str ''best_widget_id'' @ dq @ str '': '' @ dq @ str ''w1'' @ dq
     @ str '', '' @ dq @ str ''placement_strategy'' @ dq @ str '': '' @ dq @ str ''top'' @ dq
     @ str '', '' @ dq @ str ''cta_text'' @ dq @ str '': '' @ dq @ str ''Click!'' @ dq @ str ''}''"

definition demo_env :: env where
  "demo_env =
     \<lparr> listPosts = (\<lambda>per_page page.
          if page = 1 then Inr (map (\<lambda>i. \<lparr> post_id = i, rendered = None \<rparr>) [42, 43, 44]) else Inr []),
       getPost = (\<lambda>i. if i = 43 then Inl TransportError
          else Inr \<lparr> post_id = i, rendered = Some (str ''<p>Hello</p>'') \<rparr>),
       updatePostContent = (\<lambda>i v. Inr ()),
       complete = (\<lambda>articleText widgets. Inr demo_reply),
       json_parse = (\<lambda>text. if text = demo_reply
          then Some \<lparr> j_best_widget_id = JStr (str ''w1''), j_placement_strategy = JStr (str ''top''),
                 j_cta_text = JStr (str ''Click!'') \<rparr>
          else None),
       widgets_json = demo_widgets \<rparr>"

definition demo_posts :: "post list" where
  "demo_posts = map (\<lambda>i. \<lparr> post_id = i, rendered = None \<rparr>) [42, 43, 44]"

definition demo_args :: "nat \<Rightarrow> args" where
  "demo_args n = \<lparr> dryRun = True, limit = 20, par = n \<rparr>"


definition demo_trace :: "event list" where
  "demo_trace =
     [Dispatched [42], LogUpdated 42, Dispatched [43], LogError 43 TransportError,
      Dispatched [44], LogUpdated 44, SaveState [42, 44], SaveState [42, 44], LogDone 2]"


text \<open>The article of the scenario, and the answer of the model for a lead magnet.\<close>

definition hello_article :: jsstring where
  "hello_article = str ''<article><p>Hello</p></article>''"


definition lead_reply :: jsstring where
  "lead_reply = str ''{'' @ dq @ str ''best_widget_id'' @ dq @ str '': '' @ dq @ str ''w2'' @ dq
     @ str '', '' @ dq @ str ''placement_strategy'' @ dq @ str '': '' @ dq @ str ''bottom'' @ dq
     @ str '', '' @ dq @ str ''cta_text'' @ dq @ str '': '' @ dq @ str ''Get it'' @ dq @ str ''}''"

text \<open>An article that already carries one widget, and one that carries two.\<close>

definition one_article :: jsstring where
  "one_article = str ''<p>Hello</p>'' @ demo_widget_html"

definition two_article :: jsstring where
  "two_article = str ''<p>Hello</p>'' @ demo_widget_html @ demo_widget_html"

definition one_env :: "jsstring \<Rightarrow> env" where
  "one_env article =
     \<lparr> listPosts = (\<lambda>per_page page. Inr []),
       getPost = (\<lambda>i. Inr \<lparr> post_id = i, rendered = Some article \<rparr>),
       updatePostContent = (\<lambda>i v. Inr ()),
       complete = (\<lambda>articleText widgets.
          if map widget_type widgets = [str ''webinar''] then Inr demo_reply else Inr lead_reply),
       json_parse = (\<lambda>text.
          if text = demo_reply
          then Some \<lparr> j_best_widget_id = JStr (str ''w1''), j_placement_strategy = JStr (str ''top''),
                 j_cta_text = JStr (str ''Click!'') \<rparr>
          else if text = lead_reply
          then Some \<lparr> j_best_widget_id = JStr (str ''w2''), j_placement_strategy = JStr (str ''bottom''),
                 j_cta_text = JStr (str ''Get it'') \<rparr>
          else None),
       widgets_json = demo_widgets \<rparr>"

text \<open>The widget counts of the bodies a trace shows as written back.\<close>

fun update_counts :: "event list \<Rightarrow> nat list" where
  "update_counts [] = []"
| "update_counts (UpdateCall i (VString h) # tr) = countWidgets h # update_counts tr"
| "update_counts (ev # tr) = update_counts tr"








section \<open>The batch orchestrator: lemmas\<close>

lemma dispatched_append: "dispatched (xs @ ys) = dispatched xs @ dispatched ys"
  by (induction xs rule: dispatched.induct) simp_all

lemma checkpoints_append:
  "checkpoints acc (xs @ ys) = checkpoints acc xs @ checkpoints (acc @ dispatched xs) ys"
  by (induction acc xs rule: checkpoints.induct) simp_all

lemma succeeded_append: "succeeded e a (xs @ ys) = succeeded e a xs \<union> succeeded e a ys"
  by (auto simp: succeeded_def)

lemma processPost_events:
  "snd (processPost e pid w d) = [] \<or> (\<exists>v. snd (processPost e pid w d) = [UpdateCall pid v])"
  by (auto simp: processPost_def Let_def split: sum.splits prod.splits)

lemma processPost_dispatched: "dispatched (snd (processPost e pid w d)) = []"
  using processPost_events [of e pid w d] by auto

lemma processPost_checkpoints: "checkpoints acc (snd (processPost e pid w d)) = []"
  using processPost_events [of e pid w d] by auto

lemma run_batch_set:
  "set (fst (run_batch e a b pr tr)) = set pr \<union> {pid \<in> post_id ` set b. task_ok e a pid}"
proof (induction b arbitrary: pr tr)
  case Nil
  then show ?case by simp
next
  case (Cons p ps)
  obtain r evs where pp: "processPost e (post_id p) (widgets_json e) (dryRun a) = (r, evs)"
    by (cases "processPost e (post_id p) (widgets_json e) (dryRun a)")
  show ?case
  proof (cases r)
    case (Inl err)
    with pp have "\<not> task_ok e a (post_id p)" by (simp add: task_ok_def)
    with pp Inl Cons.IH show ?thesis by auto
  next
    case (Inr res)
    with pp have "task_ok e a (post_id p)" by (simp add: task_ok_def)
    with pp Inr Cons.IH show ?thesis by (auto simp: set_add_def)
  qed
qed

lemma run_batch_trace:
  "\<exists>ext. snd (run_batch e a b pr tr) = tr @ ext \<and> dispatched ext = [] \<and> (\<forall>acc. checkpoints acc ext = [])"
proof (induction b arbitrary: pr tr)
  case Nil
  then show ?case by simp
next
  case (Cons p ps)
  obtain r evs where pp: "processPost e (post_id p) (widgets_json e) (dryRun a) = (r, evs)"
    by (cases "processPost e (post_id p) (widgets_json e) (dryRun a)")
  have d: "dispatched evs = []" and c: "\<And>acc. checkpoints acc evs = []"
    using processPost_dispatched [of e "post_id p" "widgets_json e" "dryRun a"]
      processPost_checkpoints [of _ e "post_id p" "widgets_json e" "dryRun a"] pp by simp_all
  show ?case
  proof (cases r)
    case (Inl err)
    from Cons.IH [of pr "tr @ evs @ [LogError (post_id p) err]"]
    obtain ext where "snd (run_batch e a ps pr (tr @ evs @ [LogError (post_id p) err]))
        = (tr @ evs @ [LogError (post_id p) err]) @ ext"
      and "dispatched ext = []" and "\<forall>acc. checkpoints acc ext = []" by blast
    with pp Inl d c show ?thesis
      by (intro exI [of _ "evs @ [LogError (post_id p) err] @ ext"])
        (simp add: dispatched_append checkpoints_append)
  next
    case (Inr res)
    let ?l = "if changed res then LogUpdated (post_id p) else LogUnchanged (post_id p)"
    from Cons.IH [of "set_add (post_id p) pr" "tr @ evs @ [?l]"]
    obtain ext where "snd (run_batch e a ps (set_add (post_id p) pr) (tr @ evs @ [?l]))
        = (tr @ evs @ [?l]) @ ext"
      and "dispatched ext = []" and "\<forall>acc. checkpoints acc ext = []" by blast
    with pp Inr d c show ?thesis
      by (intro exI [of _ "evs @ [?l] @ ext"])
        (simp add: dispatched_append checkpoints_append)
  qed
qed


lemma run_batches_inv:
  assumes "run_batches e a bs t pr tr = (stop, t', pr', tr')"
  shows "\<exists>ext k. tr' = tr @ ext \<and> (\<forall>acc. checkpoints acc ext = [])
           \<and> dispatched ext = map (map post_id) (take k bs)
           \<and> set pr' = set pr \<union> succeeded e a (dispatched ext)"
  using assms
proof (induction bs arbitrary: t pr tr)
  case Nil
  then show ?case by (simp add: succeeded_def)
next
  case (Cons b bs)
  let ?tr0 = "tr @ [Dispatched (map post_id b)]"
  obtain p1 tr1 where rb: "run_batch e a b pr ?tr0 = (p1, tr1)"
    by (cases "run_batch e a b pr ?tr0")
  from run_batch_trace [of e a b pr ?tr0] rb
  obtain ext1 where tr1: "tr1 = ?tr0 @ ext1" and d1: "dispatched ext1 = []"
    and c1: "\<forall>acc. checkpoints acc ext1 = []" by auto
  from run_batch_set [of e a b pr ?tr0] rb
  have p1: "set p1 = set pr \<union> succeeded e a [map post_id b]"
    by (auto simp: succeeded_def)
  show ?case
  proof (cases "600 \<le> t + length b")
    case True
    with Cons.prems rb have "pr' = p1" "tr' = tr1" by simp_all
    with tr1 d1 c1 p1 show ?thesis
      by (intro exI [of _ "[Dispatched (map post_id b)] @ ext1"] exI [of _ "Suc 0"])
        (simp add: dispatched_append checkpoints_append)
  next
    case False
    with Cons.prems rb have "run_batches e a bs (t + length b) p1 tr1 = (stop, t', pr', tr')"
      by simp
    from Cons.IH [OF this]
    obtain ext k where e: "tr' = tr1 @ ext" and c: "\<forall>acc. checkpoints acc ext = []"
      and d: "dispatched ext = map (map post_id) (take k bs)"
      and s: "set pr' = set p1 \<union> succeeded e a (dispatched ext)" by blast
    from e tr1 c c1 d d1 s p1 show ?thesis
      by (intro exI [of _ "[Dispatched (map post_id b)] @ ext1 @ ext"] exI [of _ "Suc k"])
        (auto simp: dispatched_append checkpoints_append succeeded_append succeeded_def)
  qed
qed

lemma run_batches_all:
  assumes "run_batches e a bs t pr tr = (stop, t', pr', tr')"
    and "t + length (concat bs) < 600"
  shows "\<not> stop \<and> dispatched tr' = dispatched tr @ map (map post_id) bs"
  using assms
proof (induction bs arbitrary: t pr tr)
  case Nil
  then show ?case by simp
next
  case (Cons b bs)
  let ?tr0 = "tr @ [Dispatched (map post_id b)]"
  obtain p1 tr1 where rb: "run_batch e a b pr ?tr0 = (p1, tr1)"
    by (cases "run_batch e a b pr ?tr0")
  from run_batch_trace [of e a b pr ?tr0] rb
  have d1: "dispatched tr1 = dispatched tr @ [map post_id b]"
    by (auto simp: dispatched_append)
  from Cons.prems have "\<not> 600 \<le> t + length b" by simp
  with Cons.prems rb have "run_batches e a bs (t + length b) p1 tr1 = (stop, t', pr', tr')"
    by simp
  from Cons.IH [OF this] Cons.prems(2) d1 show ?case by simp
qed

lemma slice0_subset: "set (slice0 n xs) \<subseteq> set xs"
  by (auto simp: slice0_def dest: in_set_takeD)

lemma toProcess_unprocessed:
  "p \<in> set (toProcess a pr posts) \<Longrightarrow> p \<in> set posts \<and> post_id p \<notin> set pr"
  using slice0_subset [of "limit a" "filter (\<lambda>p. post_id p \<notin> set pr) posts"]
  by (auto simp: toProcess_def)

lemma concat_chunks: "0 < n \<Longrightarrow> concat (chunks n xs) = xs"
proof (induction n xs rule: chunks.induct)
  case (1 n xs)
  show ?case
  proof (cases "xs = []")
    case True
    then show ?thesis by (simp add: chunks_Nil)
  next
    case False
    with 1 have ih: "concat (chunks n (drop n xs)) = drop n xs" by simp
    from False 1 have "chunks n xs = take n xs # chunks n (drop n xs)"
      using chunks_Cons by blast
    with ih show ?thesis by simp
  qed
qed

lemma concat_take_subset: "set (concat (take k xss)) \<subseteq> set (concat xss)"
  by (auto dest: in_set_takeD)

lemma loop_inv_page:
  assumes inv: "loop_inv e a S pr tr" and par: "par a \<noteq> 0"
    and rb: "run_batches e a (chunks (par a) (toProcess a pr posts)) t pr tr = (stop, t1, p1, tr1)"
  shows "loop_inv e a S p1 (tr1 @ [SaveState p1])"
proof -
  from run_batches_inv [OF rb]
  obtain ext k where e: "tr1 = tr @ ext" and c: "\<forall>acc. checkpoints acc ext = []"
    and d: "dispatched ext = map (map post_id) (take k (chunks (par a) (toProcess a pr posts)))"
    and s: "set p1 = set pr \<union> succeeded e a (dispatched ext)" by blast
  from inv have S: "S \<subseteq> set pr" by (auto simp: loop_inv_def)
  have "set (concat (dispatched ext)) \<subseteq> post_id ` set (toProcess a pr posts)"
  proof -
    have "concat (dispatched ext) = map post_id (concat (take k (chunks (par a) (toProcess a pr posts))))"
      by (simp add: d map_concat)
    moreover have "set (concat (take k (chunks (par a) (toProcess a pr posts))))
        \<subseteq> set (toProcess a pr posts)"
      using concat_take_subset [of k "chunks (par a) (toProcess a pr posts)"] par
      by (simp add: concat_chunks)
    ultimately show ?thesis by auto
  qed
  moreover have "post_id ` set (toProcess a pr posts) \<inter> set pr = {}"
    using toProcess_unprocessed by blast
  ultimately have disj: "set (concat (dispatched ext)) \<inter> S = {}"
    using S by blast
  have d1: "dispatched (tr1 @ [SaveState p1]) = dispatched tr @ dispatched ext"
    by (simp add: e dispatched_append)
  have i1: "set p1 = S \<union> succeeded e a (dispatched tr @ dispatched ext)"
    using inv s by (auto simp: loop_inv_def succeeded_append)
  have "checkpoints [] (tr1 @ [SaveState p1])
      = checkpoints [] tr @ [(dispatched tr @ dispatched ext, p1)]"
    using c by (simp add: e checkpoints_append dispatched_append)
  moreover from inv have "list_all (\<lambda>(d, xs). set xs = S \<union> succeeded e a d) (checkpoints [] tr)"
    by (simp add: loop_inv_def)
  ultimately have i2: "list_all (\<lambda>(d, xs). set xs = S \<union> succeeded e a d)
      (checkpoints [] (tr1 @ [SaveState p1]))"
    using i1 by simp
  from inv have "set (concat (dispatched tr)) \<inter> S = {}"
    by (simp add: loop_inv_def)
  with disj have i3: "set (concat (dispatched tr @ dispatched ext)) \<inter> S = {}"
    by auto
  from i1 i2 i3 d1 show ?thesis
    unfolding loop_inv_def by simp
qed

lemma main_loop_done:
  "\<not> t < 600 \<Longrightarrow> main_loop e a page t pr tr = Some (Inr pr, tr)"
  by (subst main_loop.simps) simp

lemma main_loop_err:
  "t < 600 \<Longrightarrow> listPosts e (limit a) page = Inl err
   \<Longrightarrow> main_loop e a page t pr tr = Some (Inl err, tr)"
  by (subst main_loop.simps) simp

lemma main_loop_empty:
  "t < 600 \<Longrightarrow> listPosts e (limit a) page = Inr posts
   \<Longrightarrow> posts = [] \<or> toProcess a pr posts = []
   \<Longrightarrow> main_loop e a page t pr tr = Some (Inr pr, tr)"
  by (subst main_loop.simps) auto

lemma main_loop_par0:
  "t < 600 \<Longrightarrow> listPosts e (limit a) page = Inr posts
   \<Longrightarrow> posts \<noteq> [] \<Longrightarrow> toProcess a pr posts \<noteq> [] \<Longrightarrow> par a = 0
   \<Longrightarrow> main_loop e a page t pr tr = None"
  by (subst main_loop.simps) simp

lemma main_loop_step:
  "t < 600 \<Longrightarrow> listPosts e (limit a) page = Inr posts
   \<Longrightarrow> posts \<noteq> [] \<Longrightarrow> toProcess a pr posts \<noteq> [] \<Longrightarrow> par a \<noteq> 0
   \<Longrightarrow> run_batches e a (chunks (par a) (toProcess a pr posts)) t pr tr = (stop, t1, p1, tr1)
   \<Longrightarrow> main_loop e a page t pr tr =
        (if stop then Some (Inr p1, tr1 @ [SaveState p1])
         else main_loop e a (Suc page) t1 p1 (tr1 @ [SaveState p1]))"
  by (subst main_loop.simps) simp

lemma main_loop_inv:
  assumes "main_loop e a page t pr tr = Some (r, tr')" and "loop_inv e a S pr tr"
  shows "\<exists>pr'. loop_inv e a S pr' tr' \<and> (\<forall>x. r = Inr x \<longrightarrow> x = pr')"
  using assms
proof (induction e a page t pr tr rule: main_loop.induct)
  case (1 e a page t pr tr)
  show ?case
  proof (cases "t < 600")
    case False
    from main_loop_done [OF False] "1.prems" show ?thesis by auto
  next
    case lt: True
    show ?thesis
    proof (cases "listPosts e (limit a) page")
      case (Inl err)
      from main_loop_err [OF lt Inl] "1.prems" show ?thesis by auto
    next
      case (Inr posts)
      show ?thesis
      proof (cases "posts = [] \<or> toProcess a pr posts = []")
        case True
        from main_loop_empty [OF lt Inr True] "1.prems" show ?thesis by auto
      next
        case ne: False
        then have ne1: "posts \<noteq> []" and ne2: "toProcess a pr posts \<noteq> []" by simp_all
        show ?thesis
        proof (cases "par a = 0")
          case True
          from main_loop_par0 [OF lt Inr ne1 ne2 True] "1.prems" show ?thesis by simp
        next
          case par: False
          obtain stop t1 p1 tr1 where rb:
            "run_batches e a (chunks (par a) (toProcess a pr posts)) t pr tr = (stop, t1, p1, tr1)"
            by (cases "run_batches e a (chunks (par a) (toProcess a pr posts)) t pr tr")
          from loop_inv_page [OF "1.prems"(2) par rb]
          have inv1: "loop_inv e a S p1 (tr1 @ [SaveState p1])" .
          note step = main_loop_step [OF lt Inr ne1 ne2 par rb]
          show ?thesis
          proof (cases stop)
            case True
            with step "1.prems"(1) inv1 show ?thesis by auto
          next
            case False
            with step "1.prems"(1)
            have rec: "main_loop e a (Suc page) t1 p1 (tr1 @ [SaveState p1]) = Some (r, tr')"
              by simp
            show ?thesis
              by (rule "1.IH" [OF lt Inr ne1 ne2 par rb [symmetric] refl refl False rec inv1])
          qed
        qed
      qed
    qed
  qed
qed


lemma set_fold_set_add: "set (fold set_add xs ys) = set xs \<union> set ys"
  by (induction xs arbitrary: ys) (auto simp: set_add_def)

lemma loop_inv_init: "loop_inv e a (set s) (fold set_add s []) []"
  by (simp add: loop_inv_def set_fold_set_add succeeded_def)

lemma main_inv:
  assumes "main e a s = Some (r, tr)"
  shows "\<exists>pr tr0. loop_inv e a (set s) pr tr0
           \<and> (case r of Inl err \<Rightarrow> tr = tr0
                | Inr x \<Rightarrow> x = pr \<and> tr = tr0 @ [SaveState pr, LogDone (length pr)])"
proof -
  from assms obtain r0 tr0 where ml: "main_loop e a 1 0 (fold set_add s []) [] = Some (r0, tr0)"
    by (auto simp: main_def split: option.splits)
  from main_loop_inv [OF ml loop_inv_init]
  obtain pr where inv: "loop_inv e a (set s) pr tr0" and r0: "\<forall>x. r0 = Inr x \<longrightarrow> x = pr"
    by blast
  show ?thesis
  proof (cases r0)
    case (Inl err)
    with assms ml have "r = Inl err" "tr = tr0" by (simp_all add: main_def)
    with inv show ?thesis by auto
  next
    case (Inr x)
    with assms ml r0 have "r = Inr pr" "tr = tr0 @ [SaveState pr, LogDone (length pr)]"
      by (simp_all add: main_def)
    with inv show ?thesis by auto
  qed
qed


lemma main_example_42:
  assumes ids: "map post_id posts1 = [42, 43, 44]"
    and l1: "listPosts e 20 1 = Inr posts1" and l2: "listPosts e 20 2 = Inr []"
    and lim: "limit a = 20" and par: "par a = 3"
  shows "\<exists>r tr. main e a [42] = Some (r, tr) \<and> dispatched tr = [[43, 44]]"
proof -
  from ids obtain p q r where posts1: "posts1 = [p, q, r]"
    and pid: "post_id p = 42" "post_id q = 43" "post_id r = 44"
    by (cases posts1; cases "tl posts1"; cases "tl (tl posts1)") auto
  have tp: "toProcess a [42] posts1 = [q, r]"
    by (simp add: toProcess_def slice0_def lim posts1 pid)
  have ch: "chunks (par a) [q, r] = [[q, r]]"
    by (simp add: par chunks_Cons chunks_Nil)
  obtain p1 tr1 where rb1: "run_batch e a [q, r] [42] [Dispatched [43, 44]] = (p1, tr1)"
    by (cases "run_batch e a [q, r] [42] [Dispatched [43, 44]]")
  then have rb: "run_batches e a [[q, r]] 0 [42] [] = (False, 2, p1, tr1)"
    by (simp add: pid)
  from run_batches_all [OF rb] have d: "dispatched tr1 = [[43, 44]]"
    by (simp add: pid)
  have "main_loop e a 1 0 [42] [] = main_loop e a (Suc 1) 2 p1 (tr1 @ [SaveState p1])"
    using main_loop_step [of 0 e a 1 posts1 "[42]" "[]" False 2 p1 tr1] l1 lim par tp ch rb posts1
    by simp
  also have "\<dots> = Some (Inr p1, tr1 @ [SaveState p1])"
  proof -
    from l2 lim have "listPosts e (limit a) (Suc 1) = Inr []" by (simp add: numeral_2_eq_2)
    then show ?thesis by (intro main_loop_empty [where posts = "[]"]) simp_all
  qed
  finally have "main e a [42] = Some (Inr p1, (tr1 @ [SaveState p1]) @ [SaveState p1, LogDone (length p1)])"
    by (simp add: main_def set_add_def)
  with d show ?thesis by (simp add: dispatched_append)
qed

lemma page_dispatch_exact:
  assumes "par a \<noteq> 0"
    and "int (length (filter (\<lambda>p. post_id p \<notin> set pr) posts)) \<le> limit a"
    and "t + length (filter (\<lambda>p. post_id p \<notin> set pr) posts) < 600"
  shows "concat (dispatched (snd (snd (snd
           (run_batches e a (chunks (par a) (toProcess a pr posts)) t pr [])))))
         = map post_id (filter (\<lambda>p. post_id p \<notin> set pr) posts)"
proof -
  let ?un = "filter (\<lambda>p. post_id p \<notin> set pr) posts"
  from assms(2) have tp: "toProcess a pr posts = ?un"
    by (auto simp: toProcess_def slice0_def)
  obtain stop t1 p1 tr1 where rb:
    "run_batches e a (chunks (par a) ?un) t pr [] = (stop, t1, p1, tr1)"
    by (cases "run_batches e a (chunks (par a) ?un) t pr []")
  from assms(1) have cc: "concat (chunks (par a) ?un) = ?un"
    by (simp add: concat_chunks)
  with assms(3) have "t + length (concat (chunks (par a) ?un)) < 600" by simp
  from run_batches_all [OF rb this]
  have "dispatched tr1 = map (map post_id) (chunks (par a) ?un)" by simp
  then have "concat (dispatched tr1) = map post_id (concat (chunks (par a) ?un))"
    by (simp add: map_concat)
  with cc rb tp show ?thesis by simp
qed

lemma main_never_reprocesses:
  assumes "main e a s = Some (r, tr)"
  shows "set (concat (dispatched tr)) \<inter> set s = {}"
proof -
  from main_inv [OF assms] obtain pr tr0 where inv: "loop_inv e a (set s) pr tr0"
    and c: "case r of Inl err \<Rightarrow> tr = tr0
            | Inr x \<Rightarrow> x = pr \<and> tr = tr0 @ [SaveState pr, LogDone (length pr)]"
    by blast
  from c have "dispatched tr = dispatched tr0"
    by (cases r) (simp_all add: dispatched_append)
  with inv show ?thesis by (simp add: loop_inv_def)
qed

lemma demo_run: "main demo_env (demo_args 1) [] = Some (Inr [42, 44], demo_trace)"
  by code_simp



lemma demo_succeeded:
  "succeeded demo_env (demo_args 1) [[42], [43], [44]] = {42, 44}"
  "succeeded demo_env (demo_args 1) [[42]] = {42}"
  by code_simp+



section \<open>The per-article step: lemmas\<close>

lemma processPost_always_changed:
  "processPost e pid w dry = (Inr r, evs) \<Longrightarrow> changed r"
  by (auto simp: processPost_def Let_def split: sum.splits prod.splits if_splits)


section \<open>The placement engine: lemmas\<close>






lemma hello_article_doc:
  "load (cleanWpPostContentMarkers (removeContactFormShortcodesAndForms hello_article))
     = [Element (str ''article'') [] [Element (str ''p'') [] [Text (str ''Hello'')]]]"
  by code_simp

lemma hello_article_insert:
  "html (insertWidgetHtml hello_article (str ''w1'') w (str ''Click!'') Top)
     = cleanWpPostContentMarkers
         (str ''<p>Hello</p>'' @ html_nodes (load (nl @ block (str ''w1'') w (str ''Click!'') @ nl)))
   \<and> placement (insertWidgetHtml hello_article (str ''w1'') w (str ''Click!'') Top)
     = Some \<lparr> container = ArticleC, position = Top, method_used = AfterFirstP \<rparr>"
proof -
  let ?doc = "[Element (str ''article'') [] [Element (str ''p'') [] [Text (str ''Hello'')]]]"
  let ?ins = "load (nl @ block (str ''w1'') w (str ''Click!'') @ nl)"
  have pl: "place ?doc (block (str ''w1'') w (str ''Click!'')) Top
      = ([Element (str ''article'') [] (Element (str ''p'') [] [Text (str ''Hello'')] # ?ins)],
         ArticleC, AfterFirstP)"
    by (simp add: place_def str_def)
  have "result_html [Element (str ''article'') [] (Element (str ''p'') [] [Text (str ''Hello'')] # ?ins)]
      = str ''<p>Hello</p>'' @ html_nodes ?ins"
    by (simp add: result_html_def str_def void_elements_def)
  with pl show ?thesis
    by (simp add: insertWidgetHtml_def Let_def hello_article_doc)
qed

lemma hello_article_demo:
  "html (insertWidgetHtml hello_article (str ''w1'') demo_widget_html (str ''Click!'') Top)
     = str ''<p>Hello</p>'' @ nl @ str ''<!-- ai-cta:start id=w1 -->'' @ nl
       @ str ''<p class='' @ dq @ str ''ai-cta-text'' @ dq @ str ''>Click!</p>'' @ nl
       @ demo_widget_html @ nl @ str ''<!-- ai-cta:end -->'' @ nl"
  by code_simp

lemma hello_article_no_wrapper:
  "\<not> js_includes (html (insertWidgetHtml hello_article (str ''w1'') demo_widget_html (str ''Click!'') Top))
       (str ''<article>'')"
  "\<not> js_includes (html (insertWidgetHtml hello_article (str ''w1'') demo_widget_html (str ''Click!'') Top))
       (str ''</article>'')"
  by code_simp+

section \<open>The decision normalizer: theorems\<close>

lemma normalize_top_examples:
  "normalizePlacementStrategy (str ''top'') = Inr Top"
  "normalizePlacementStrategy word_nachalo = Inr Top"
  "normalizePlacementStrategy (str ''Top!!'') = Inr Top"
  by (simp_all add: normalizePlacementStrategy_def toLowerCase_def lower_unit_def str_def
      stem_nach_def word_nachalo_def)

lemma normalize_bottom_examples:
  "normalizePlacementStrategy (str ''bottom'') = Inr Bottom"
  "normalizePlacementStrategy word_konets = Inr Bottom"
  "normalizePlacementStrategy (str ''end'') = Inr Bottom"
  by (simp_all add: normalizePlacementStrategy_def toLowerCase_def lower_unit_def str_def
      stem_nach_def stem_kon_def word_konets_def)

lemma normalize_middle:
  "normalizePlacementStrategy (str ''middle'') = Inl (InvalidPlacement (str ''middle''))"
  by (simp add: normalizePlacementStrategy_def toLowerCase_def lower_unit_def str_def
      stem_nach_def stem_kon_def)

lemma normalize_unmatched:
  assumes "\<not> js_includes (toLowerCase raw) (str ''top'')"
    and "\<not> js_includes (toLowerCase raw) stem_nach"
    and "\<not> js_includes (toLowerCase raw) (str ''bottom'')"
    and "\<not> js_includes (toLowerCase raw) (str ''end'')"
    and "\<not> js_includes (toLowerCase raw) stem_kon"
  shows "normalizePlacementStrategy raw = Inl (InvalidPlacement raw)"
  using assms by (simp add: normalizePlacementStrategy_def)

lemma normalize_case_insensitive:
  assumes "toLowerCase raw = toLowerCase raw'"
  shows "(normalizePlacementStrategy raw = Inr p) = (normalizePlacementStrategy raw' = Inr p)"
  using assms by (simp add: normalizePlacementStrategy_def Let_def)

text \<open>
  C6. Normalizer synonym mapping: \<open>normalizePlacementStrategy\<close> maps "top", the Russian
  word for "beginning" and "Top!!" to \<open>top\<close>; it maps "bottom", the Russian word for "end"
  and "end" to \<open>bottom\<close>; on "middle", and on every other input whose lower case holds
  none of the five stems, it throws and returns no value. The match is case-insensitive:
  two inputs of the same lower case are mapped to the same position.
\<close>

theorem C6_normalizer_synonym_mapping:
  "normalizePlacementStrategy (str ''top'') = Inr Top
   \<and> normalizePlacementStrategy word_nachalo = Inr Top
   \<and> normalizePlacementStrategy (str ''Top!!'') = Inr Top
   \<and> normalizePlacementStrategy (str ''bottom'') = Inr Bottom
   \<and> normalizePlacementStrategy word_konets = Inr Bottom
   \<and> normalizePlacementStrategy (str ''end'') = Inr Bottom
   \<and> normalizePlacementStrategy (str ''middle'') = Inl (InvalidPlacement (str ''middle''))
   \<and> (\<forall>raw. \<not> js_includes (toLowerCase raw) (str ''top'')
            \<and> \<not> js_includes (toLowerCase raw) stem_nach
            \<and> \<not> js_includes (toLowerCase raw) (str ''bottom'')
            \<and> \<not> js_includes (toLowerCase raw) (str ''end'')
            \<and> \<not> js_includes (toLowerCase raw) stem_kon
          \<longrightarrow> normalizePlacementStrategy raw = Inl (InvalidPlacement raw))
   \<and> (\<forall>raw raw' p. toLowerCase raw = toLowerCase raw'
          \<longrightarrow> (normalizePlacementStrategy raw = Inr p) = (normalizePlacementStrategy raw' = Inr p))"
  using normalize_top_examples normalize_bottom_examples normalize_middle
    normalize_unmatched normalize_case_insensitive
  by blast

theorem C6_normalizer_synonym_mapping_witness:
  "normalizePlacementStrategy (str ''center'') = Inl (InvalidPlacement (str ''center''))
   \<and> (normalizePlacementStrategy (str ''BOTTOM'') = Inr Bottom)
       = (normalizePlacementStrategy (str ''bottom'') = Inr Bottom)"
proof -
  have h: "\<not> js_includes (toLowerCase (str ''center'')) (str ''top'')
      \<and> \<not> js_includes (toLowerCase (str ''center'')) stem_nach
      \<and> \<not> js_includes (toLowerCase (str ''center'')) (str ''bottom'')
      \<and> \<not> js_includes (toLowerCase (str ''center'')) (str ''end'')
      \<and> \<not> js_includes (toLowerCase (str ''center'')) stem_kon"
    by (simp add: toLowerCase_def lower_unit_def str_def stem_nach_def stem_kon_def)
  have l: "toLowerCase (str ''BOTTOM'') = toLowerCase (str ''bottom'')"
    by (simp add: toLowerCase_def lower_unit_def str_def)
  from C6_normalizer_synonym_mapping h l show ?thesis by blast
qed

section \<open>The batch orchestrator: theorems\<close>







text \<open>
  C2, as the code has it. No identifier of the set loaded at the start is dispatched
  by the run. From a fetched page the loop dispatches the unprocessed articles in page
  order, all of them when they are at most \<open>limit\<close> and the cap of 600 is not reached
  with them. With 42 in the loaded set and a source of the articles 42, 43 and 44, a run
  with the default flags dispatches the one batch of 43 and 44.
\<close>

theorem C2_resumability:
  "(main e a s = Some (r, tr) \<longrightarrow> set (concat (dispatched tr)) \<inter> set s = {})
   \<and> (par a \<noteq> 0
        \<and> int (length (filter (\<lambda>p. post_id p \<notin> set pr) posts)) \<le> limit a
        \<and> t + length (filter (\<lambda>p. post_id p \<notin> set pr) posts) < 600
       \<longrightarrow> concat (dispatched (snd (snd (snd
              (run_batches e a (chunks (par a) (toProcess a pr posts)) t pr [])))))
           = map post_id (filter (\<lambda>p. post_id p \<notin> set pr) posts))
   \<and> (map post_id posts1 = [42, 43, 44] \<and> listPosts e1 20 1 = Inr posts1
        \<and> listPosts e1 20 2 = Inr [] \<and> limit a1 = 20 \<and> par a1 = 3
       \<longrightarrow> (\<exists>r1 tr1. main e1 a1 [42] = Some (r1, tr1) \<and> dispatched tr1 = [[43, 44]]))"
proof (intro conjI impI)
  assume "main e a s = Some (r, tr)"
  then show "set (concat (dispatched tr)) \<inter> set s = {}"
    by (rule main_never_reprocesses)
next
  assume "par a \<noteq> 0
      \<and> int (length (filter (\<lambda>p. post_id p \<notin> set pr) posts)) \<le> limit a
      \<and> t + length (filter (\<lambda>p. post_id p \<notin> set pr) posts) < 600"
  then show "concat (dispatched (snd (snd (snd
        (run_batches e a (chunks (par a) (toProcess a pr posts)) t pr [])))))
      = map post_id (filter (\<lambda>p. post_id p \<notin> set pr) posts)"
    by (intro page_dispatch_exact) simp_all
next
  assume "map post_id posts1 = [42, 43, 44] \<and> listPosts e1 20 1 = Inr posts1
      \<and> listPosts e1 20 2 = Inr [] \<and> limit a1 = 20 \<and> par a1 = 3"
  then have "map post_id posts1 = [42, 43, 44]" "listPosts e1 20 1 = Inr posts1"
    "listPosts e1 20 2 = Inr []" "limit a1 = 20" "par a1 = 3"
    by simp_all
  then show "\<exists>r1 tr1. main e1 a1 [42] = Some (r1, tr1) \<and> dispatched tr1 = [[43, 44]]"
    by (rule main_example_42)
qed

theorem C2_resumability_witness:
  "set (concat (dispatched demo_trace)) \<inter> set [] = {}
   \<and> concat (dispatched (snd (snd (snd
        (run_batches demo_env (demo_args 1)
           (chunks (par (demo_args 1)) (toProcess (demo_args 1) [42] demo_posts)) 0 [42] [])))))
      = map post_id (filter (\<lambda>p. post_id p \<notin> set [42]) demo_posts)
   \<and> (\<exists>r1 tr1. main demo_env (demo_args 3) [42] = Some (r1, tr1) \<and> dispatched tr1 = [[43, 44]])"
proof -
  note T = C2_resumability [where e = demo_env and a = "demo_args 1" and s = "[]"
      and r = "Inr [42, 44]" and tr = demo_trace and pr = "[42]" and posts = demo_posts and t = 0
      and ?posts1.0 = demo_posts and ?e1.0 = demo_env and ?a1.0 = "demo_args 3"]
  have h2: "par (demo_args 1) \<noteq> 0
      \<and> int (length (filter (\<lambda>p. post_id p \<notin> set [42]) demo_posts)) \<le> limit (demo_args 1)
      \<and> 0 + length (filter (\<lambda>p. post_id p \<notin> set [42]) demo_posts) < 600"
    by (simp add: demo_args_def demo_posts_def)
  have h3: "map post_id demo_posts = [42, 43, 44] \<and> listPosts demo_env 20 1 = Inr demo_posts
      \<and> listPosts demo_env 20 2 = Inr [] \<and> limit (demo_args 3) = 20 \<and> par (demo_args 3) = 3"
    by (simp add: demo_args_def demo_posts_def demo_env_def)
  from T [THEN conjunct1, rule_format, OF demo_run]
    T [THEN conjunct2, THEN conjunct1, rule_format, OF h2]
    T [THEN conjunct2, THEN conjunct2, rule_format, OF h3]
  show ?thesis by (intro conjI)
qed

text \<open>
  Two turns that leave an unprocessed article of the fetched page out: with \<open>limit = 1\<close>
  and a page of two unprocessed articles only the first is dispatched, and a turn entered
  with 599 articles counted stops behind its first batch.
\<close>

theorem C2_resumability_counterexample:
  "main demo_env \<lparr> dryRun = True, limit = 1, par = 3 \<rparr> [43] =
     Some (Inr [43, 42],
       [Dispatched [42], LogUpdated 42, SaveState [43, 42], SaveState [43, 42], LogDone 2])
   \<and> main_loop demo_env (demo_args 1) 1 599 [43] [] =
     Some (Inr [43, 42], [Dispatched [42], LogUpdated 42, SaveState [43, 42]])"
  by code_simp

section \<open>The placement engine: theorems\<close>

text \<open>
  C8, as the code has it. For the article \<open><article><p>Hello</p></article>\<close>, the widget
  \<open>w1\<close>, the lead text "Click!" and the position \<open>top\<close>, the result is the contents of
  the \<open>article\<close> element, without its tags: the paragraph, then what the parser and
  the serializer make of newline, block, newline; the method is \<open>afterFirstP\<close> in the
  container \<open>article\<close>. For the example widget this is the paragraph, a newline, the
  block from its start marker to its end marker, and a newline.
\<close>

theorem C8_top_insertion_scenario:
  "html (insertWidgetHtml hello_article (str ''w1'') w (str ''Click!'') Top)
     = cleanWpPostContentMarkers
         (str ''<p>Hello</p>'' @ html_nodes (load (nl @ block (str ''w1'') w (str ''Click!'') @ nl)))
   \<and> placement (insertWidgetHtml hello_article (str ''w1'') w (str ''Click!'') Top)
     = Some \<lparr> container = ArticleC, position = Top, method_used = AfterFirstP \<rparr>
   \<and> html (insertWidgetHtml hello_article (str ''w1'') demo_widget_html (str ''Click!'') Top)
     = str ''<p>Hello</p>'' @ nl @ str ''<!-- ai-cta:start id=w1 -->'' @ nl
       @ str ''<p class='' @ dq @ str ''ai-cta-text'' @ dq @ str ''>Click!</p>'' @ nl
       @ demo_widget_html @ nl @ str ''<!-- ai-cta:end -->'' @ nl"
  using hello_article_insert [of w] hello_article_demo by simp


text \<open>The result of the scenario holds neither \<open><article><p>Hello</p>\<close> nor \<open></article>\<close>.\<close>

theorem C8_top_insertion_scenario_counterexample:
  "\<not> js_includes (html (insertWidgetHtml (str ''<article><p>Hello</p></article>'') (str ''w1'')
         demo_widget_html (str ''Click!'') Top)) (str ''<article><p>Hello</p>'')
   \<and> \<not> js_includes (html (insertWidgetHtml (str ''<article><p>Hello</p></article>'') (str ''w1'')
         demo_widget_html (str ''Click!'') Top)) (str ''</article>'')"
  by code_simp











section \<open>The single-article driver: theorems\<close>

text \<open>
  C1, as the code has it. The gate of \<open>main\<close> in runOne.ts reads the count of the
  original body once: when it is 2 or more, the run inserts nothing, calls no update
  and logs that the limit is reached.
\<close>

theorem C1_insertion_cap_gate:
  assumes "pid \<noteq> 0" and "getPost e pid = Inr p"
    and "countWidgets (case rendered p of None \<Rightarrow> [] | Some r \<Rightarrow> r) \<ge> 2"
  shows "runOne_main e pid dry = (Inr (), [LogLimitReached])"
  using assms by (simp add: runOne_main_def)

theorem C1_insertion_cap_gate_witness:
  "runOne_main (one_env two_article) 7 False = (Inr (), [LogLimitReached])"
proof -
  have g: "getPost (one_env two_article) 7 = Inr \<lparr> post_id = 7, rendered = Some two_article \<rparr>"
    by (simp add: one_env_def)
  have c: "countWidgets (case rendered \<lparr> post_id = 7, rendered = Some two_article \<rparr> of
      None \<Rightarrow> [] | Some r \<Rightarrow> r) \<ge> 2"
    by code_simp
  have n: "(7::nat) \<noteq> 0" by simp
  from C1_insertion_cap_gate [OF n g c] show ?thesis .
qed


text \<open>
  Below the gate nothing bounds the count: an article with one widget is written back
  with three by one run, and three insertions of one widget at one position into the
  empty body, which passes the gate, give a count of three.
\<close>

theorem C1_insertion_cap_counterexample:
  "countWidgets one_article = 1
   \<and> update_counts (snd (runOne_main (one_env one_article) 7 False)) = [3]
   \<and> countWidgets [] = 0
   \<and> countWidgets (html (insertWidgetHtml (html (insertWidgetHtml (html (insertWidgetHtml []
         (str ''w1'') demo_widget_html (str ''Click!'') Top))
         (str ''w1'') demo_widget_html (str ''Click!'') Top))
         (str ''w1'') demo_widget_html (str ''Click!'') Top)) = 3"
  by code_simp


section \<open>The per-article step: theorems\<close>


section \<open>The state store: theorems\<close>

text \<open>
  C10. State store round trip: for a state that the runtime's \<open>JSON.parse\<close> reads back
  from the text its \<open>JSON.stringify\<close> writes (a JSON-serializable state), \<open>loadState\<close>
  after \<open>saveState\<close> returns the state, whatever the file held before.
\<close>

theorem C10_state_store_roundtrip:
  assumes "JSON_parse rt (JSON_stringify rt s) = Some s"
  shows "loadState rt (saveState rt s file) = s"
  using assms by (simp add: loadState_def saveState_def)

theorem C10_state_store_roundtrip_witness:
  "loadState json_runtime (saveState json_runtime demo_state None) = demo_state"
proof -
  have "JSON_parse json_runtime (JSON_stringify json_runtime demo_state) = Some demo_state"
    by code_simp
  then show ?thesis by (rule C10_state_store_roundtrip)
qed

end
